theory Spec2Isabelle
  imports Complex_Main
begin

section \<open>JavaScript values, exceptions and containers\<close>

text \<open>
  The values that cross the boundaries of the service (socket payloads, request bodies,
  fields of an upstream quote). Objects other than dates are opaque: the code only tests
  them for truthiness and type, or copies them.
\<close>

datatype jsval =
    JUndefined
  | JNull
  | JBool bool
  | JNum rat
  | JNaN
  | JInfinity
  | JStr string
  | JDate "int option"  \<comment> \<open>a Date object; \<open>None\<close> is "Invalid Date", \<open>Some ms\<close> its time value\<close>
  | JObj

fun truthy :: "jsval \<Rightarrow> bool" where
  "truthy JUndefined = False"
| "truthy JNull = False"
| "truthy (JBool b) = b"
| "truthy (JNum r) = (r \<noteq> 0)"
| "truthy JNaN = False"
| "truthy JInfinity = True"
| "truthy (JStr s) = (s \<noteq> [])"
| "truthy (JDate d) = True"
| "truthy JObj = True"

fun typeof_string :: "jsval \<Rightarrow> bool" where
  "typeof_string (JStr s) = True"
| "typeof_string v = False"

text \<open>A thrown value. Every function that can throw returns \<open>js_error + 'a\<close>.\<close>

datatype js_error = Error string

text \<open>\<open>try { body } catch (error) { handler }\<close>\<close>

definition try_catch :: "(js_error + 'a) \<Rightarrow> (js_error \<Rightarrow> js_error + 'a) \<Rightarrow> js_error + 'a" where
  "try_catch body handler = (case body of Inl e \<Rightarrow> handler e | Inr v \<Rightarrow> Inr v)"

text \<open>A \<open>Set\<close>: its elements in insertion order, each once.\<close>

definition set_add :: "'a list \<Rightarrow> 'a \<Rightarrow> 'a list" where
  "set_add xs x = (if x \<in> set xs then xs else xs @ [x])"

definition set_delete :: "'a list \<Rightarrow> 'a \<Rightarrow> 'a list" where
  "set_delete xs x = removeAll x xs"

section \<open>Strings\<close>

text \<open>
  A string is a list of code units. The model is exact on ASCII text:
  \<open>String.prototype.toUpperCase\<close> maps the letters \<open>a\<close> to \<open>z\<close> and leaves every other
  ASCII character. What it gives on a string with a character outside ASCII is the
  parameter \<open>unicode_upper\<close>.
\<close>

definition is_ascii :: "char \<Rightarrow> bool" where
  "is_ascii c = ((of_char c :: nat) < 128)"

fun toUpperChar :: "char \<Rightarrow> char" where
  "toUpperChar (Char b0 b1 b2 b3 b4 b5 b6 b7) =
     (let c = Char b0 b1 b2 b3 b4 b5 b6 b7; n = (of_char c :: nat)
      in if 97 \<le> n \<and> n \<le> 122 then Char b0 b1 b2 b3 b4 False b6 b7 else c)"

definition toUpperCase :: "(string \<Rightarrow> string) \<Rightarrow> string \<Rightarrow> string" where
  "toUpperCase unicode_upper s =
     (if list_all is_ascii s then map toUpperChar s else unicode_upper s)"

section \<open>Quotes\<close>

text \<open>The processed quote that \<open>fetchStockData\<close> builds for one ticker.\<close>

record quote =
  price :: jsval
  change :: jsval
  changePercent :: jsval
  volume :: jsval
  marketState :: jsval
  symbol :: string
  shortName :: jsval
  timestamp :: "int option"  \<comment> \<open>a valid Date (its time value) or \<open>null\<close>\<close>

section \<open>Plain objects as dictionaries\<close>

text \<open>
  \<open>results\<close>, \<open>dataToCache\<close> and \<open>stockData\<close> are plain objects whose values are quotes
  or \<open>null\<close>. Such an object has its own properties, in the order of their creation, and
  a prototype: \<open>Object.prototype\<close> when it is created by \<open>{}\<close> or \<open>Object.fromEntries\<close>,
  and afterwards whatever an assignment to \<open>__proto__\<close> made it (a quote object, whose own
  prototype is \<open>Object.prototype\<close>, or \<open>null\<close>).
\<close>

datatype prototype = ObjectPrototype | QuotePrototype quote | NullPrototype

record jsobject =
  own :: "(string \<times> quote option) list"
  proto :: prototype

definition empty_object :: jsobject where
  "empty_object = \<lparr>own = [], proto = ObjectPrototype\<rparr>"

text \<open>Creating or overwriting an own property; an overwritten property keeps its place.\<close>

fun own_set :: "(string \<times> 'v) list \<Rightarrow> string \<Rightarrow> 'v \<Rightarrow> (string \<times> 'v) list" where
  "own_set [] k v = [(k, v)]"
| "own_set ((k', v') # kvs) k v =
     (if k' = k then (k, v) # kvs else (k', v') # own_set kvs k v)"

text \<open>
  \<open>o[k] = v\<close>. While \<open>Object.prototype\<close> is on the prototype chain, the key
  \<open>__proto__\<close> reaches its setter, which replaces the prototype by \<open>v\<close> (an object or
  \<open>null\<close>) and creates no property. Every other assignment creates or overwrites an own
  property.
\<close>

definition obj_set :: "jsobject \<Rightarrow> string \<Rightarrow> quote option \<Rightarrow> jsobject" where
  "obj_set ob k v =
     (if k = ''__proto__'' \<and> proto ob \<noteq> NullPrototype
      then ob\<lparr>proto := (case v of None \<Rightarrow> NullPrototype | Some q \<Rightarrow> QuotePrototype q)\<rparr>
      else ob\<lparr>own := own_set (own ob) k v\<rparr>)"

text \<open>
  \<open>o.hasOwnProperty(k)\<close>. The method is inherited from \<open>Object.prototype\<close>: the call
  throws a TypeError when an own property of that name hides it (its value is a quote or
  \<open>null\<close>, not a function) and when the prototype is \<open>null\<close>.
\<close>

definition hasOwnProperty :: "jsobject \<Rightarrow> string \<Rightarrow> js_error + bool" where
  "hasOwnProperty ob k =
     (if ''hasOwnProperty'' \<in> set (map fst (own ob)) \<or> proto ob = NullPrototype
      then Inl (Error ''results.hasOwnProperty is not a function'')
      else Inr (k \<in> set (map fst (own ob))))"

text \<open>
  \<open>o[k]\<close> read: an own property, or else what the prototype chain has under that name
  (a field of the quote that is the prototype, a method of \<open>Object.prototype\<close>, or for
  \<open>__proto__\<close> the prototype itself; methods and objects are \<open>JObj\<close>), or else
  \<open>undefined\<close>.
\<close>

definition object_prototype_names :: "string list" where
  "object_prototype_names =
     [''constructor'', ''__defineGetter__'', ''__defineSetter__'', ''hasOwnProperty'',
      ''__lookupGetter__'', ''__lookupSetter__'', ''isPrototypeOf'', ''propertyIsEnumerable'',
      ''toString'', ''valueOf'', ''__proto__'', ''toLocaleString'']"

definition quote_field :: "quote \<Rightarrow> string \<Rightarrow> jsval option" where
  "quote_field q k =
     (if k = ''price'' then Some (price q)
      else if k = ''change'' then Some (change q)
      else if k = ''changePercent'' then Some (changePercent q)
      else if k = ''volume'' then Some (volume q)
      else if k = ''marketState'' then Some (marketState q)
      else if k = ''symbol'' then Some (JStr (symbol q))
      else if k = ''shortName'' then Some (shortName q)
      else if k = ''timestamp''
      then Some (case timestamp q of None \<Rightarrow> JNull | Some ms \<Rightarrow> JDate (Some ms))
      else None)"

definition inherited :: "prototype \<Rightarrow> string \<Rightarrow> jsval option" where
  "inherited p k =
     (case p of
        NullPrototype \<Rightarrow> None
      | ObjectPrototype \<Rightarrow> if k \<in> set object_prototype_names then Some JObj else None
      | QuotePrototype q \<Rightarrow>
          (case quote_field q k of
             Some v \<Rightarrow> Some v
           | None \<Rightarrow> if k \<in> set object_prototype_names then Some JObj else None))"

datatype lookup = Own "quote option" | Inherited jsval | Undefined

definition obj_get :: "jsobject \<Rightarrow> string \<Rightarrow> lookup" where
  "obj_get ob k =
     (case map_of (own ob) k of
        Some v \<Rightarrow> Own v
      | None \<Rightarrow> (case inherited (proto ob) k of Some v \<Rightarrow> Inherited v | None \<Rightarrow> Undefined))"

text \<open>
  \<open>Object.keys\<close> and \<open>Object.entries\<close> list the own properties: first those whose key is
  an array index (a canonical numeral below \<open>2^32 - 1\<close>) in ascending numeric order, then
  the others in the order of their creation. \<open>Object.fromEntries\<close> defines the entries,
  one after the other, on a new object; defining does not go through a setter.
\<close>

definition is_digit :: "char \<Rightarrow> bool" where
  "is_digit c = (48 \<le> (of_char c :: nat) \<and> (of_char c :: nat) \<le> 57)"

definition index_value :: "string \<Rightarrow> nat" where
  "index_value k = foldl (\<lambda>n c. 10 * n + ((of_char c :: nat) - 48)) 0 k"

definition is_array_index :: "string \<Rightarrow> bool" where
  "is_array_index k =
     (k \<noteq> [] \<and> list_all is_digit k \<and> (k = ''0'' \<or> hd k \<noteq> CHR ''0'')
      \<and> index_value k < 4294967295)"

definition property_order :: "(string \<times> 'v) list \<Rightarrow> (string \<times> 'v) list" where
  "property_order kvs =
     sort_key (\<lambda>kv. index_value (fst kv)) (filter (\<lambda>kv. is_array_index (fst kv)) kvs)
     @ filter (\<lambda>kv. \<not> is_array_index (fst kv)) kvs"

definition object_entries :: "jsobject \<Rightarrow> (string \<times> quote option) list" where
  "object_entries ob = property_order (own ob)"

definition object_keys :: "jsobject \<Rightarrow> string list" where
  "object_keys ob = map fst (object_entries ob)"

definition object_fromEntries :: "(string \<times> quote option) list \<Rightarrow> jsobject" where
  "object_fromEntries kvs =
     \<lparr>own = fold (\<lambda>(k, v) props. own_set props k v) kvs [], proto = ObjectPrototype\<rparr>"

section \<open>services/websocketService.js\<close>

datatype event =
    Welcome string jsval          \<comment> \<open>the message's \<open>socket.id\<close> and \<open>socket.user?.id || ''\<close>\<close>
  | Subscribed "jsval list"
  | Unsubscribed "jsval list"
  | StockUpdate string "quote option"  \<comment> \<open>\<open>{ [ticker]: data }\<close>, \<open>None\<close> for \<open>null\<close>\<close>

text \<open>
  A Socket.IO socket: the handshake's \<open>auth?.token\<close>, \<open>socket.user\<close> (the decoded
  \<open>userId\<close>, when the middleware set it), the rooms it has joined, the
  \<open>subscribedTickers\<close> Set, and the events emitted to it.
\<close>

record socket =
  sid :: string
  handshake_token :: jsval
  user :: "jsval option"
  rooms :: "string list"
  subscribedTickers :: "string list"
  outbox :: "event list"

definition emit :: "socket \<Rightarrow> event \<Rightarrow> socket" where
  "emit s ev = s\<lparr>outbox := outbox s @ [ev]\<rparr>"

definition join :: "socket \<Rightarrow> string \<Rightarrow> socket" where
  "join s room = s\<lparr>rooms := set_add (rooms s) room\<rparr>"

definition leave :: "socket \<Rightarrow> string \<Rightarrow> socket" where
  "leave s room = s\<lparr>rooms := set_delete (rooms s) room\<rparr>"

definition roomName :: "string \<Rightarrow> string" where
  "roomName ticker = ''stock_'' @ ticker"

text \<open>
  The \<open>io.use\<close> middleware. \<open>JWT_SECRET\<close> is the environment variable (\<open>None\<close> when
  unset); \<open>jwt_verify\<close> is \<open>jwt.verify\<close> of the jsonwebtoken library, giving the
  error's message or the payload's \<open>userId\<close>. \<open>Inl\<close> is \<open>next(new Error(...))\<close>.
\<close>

definition authMiddleware ::
  "string option \<Rightarrow> (jsval \<Rightarrow> string \<Rightarrow> string + jsval) \<Rightarrow> socket \<Rightarrow> js_error + socket" where
  "authMiddleware JWT_SECRET jwt_verify s =
     (case JWT_SECRET of
        None \<Rightarrow> Inr s
      | Some secret \<Rightarrow>
          if secret = [] then Inr s
          else
            let token = handshake_token s in
            if \<not> truthy token then Inl (Error ''Authentication error: No token provided'')
            else (case jwt_verify token secret of
                    Inl message \<Rightarrow>
                      Inl (Error (''Authentication error: '' @
                             (if message \<noteq> [] then message else ''Invalid token'')))
                  | Inr userId \<Rightarrow> Inr (s\<lparr>user := Some userId\<rparr>)))"

text \<open>The \<open>io.on('connection')\<close> callback.\<close>

definition on_connection :: "socket \<Rightarrow> socket" where
  "on_connection s =
     emit (s\<lparr>subscribedTickers := []\<rparr>)
       (Welcome (sid s)
          (case user s of None \<Rightarrow> JStr ''''
           | Some uid \<Rightarrow> if truthy uid then uid else JStr ''''))"

text \<open>
  A connection attempt on the server's connected sockets: Socket.IO runs the middleware
  and fires \<open>connection\<close> only if it called \<open>next()\<close> without an error.
\<close>

definition handshake ::
  "string option \<Rightarrow> (jsval \<Rightarrow> string \<Rightarrow> string + jsval) \<Rightarrow> socket list \<Rightarrow> socket
     \<Rightarrow> (js_error + unit) \<times> socket list" where
  "handshake JWT_SECRET jwt_verify sockets s =
     (case authMiddleware JWT_SECRET jwt_verify s of
        Inl e \<Rightarrow> (Inl e, sockets)
      | Inr s' \<Rightarrow> (Inr (), sockets @ [on_connection s']))"

text \<open>The \<open>subscribe\<close> payload: an array, or any other value.\<close>

datatype payload = PArray "jsval list" | PValue jsval

definition ensure_array :: "payload \<Rightarrow> jsval list" where
  "ensure_array tickers = (case tickers of PArray xs \<Rightarrow> xs | PValue v \<Rightarrow> filter truthy [v])"

definition subscribe_ticker :: "socket \<Rightarrow> jsval \<Rightarrow> socket" where
  "subscribe_ticker s ticker =
     (if truthy ticker \<and> typeof_string ticker
      then (case ticker of
              JStr t \<Rightarrow> (join s (roomName t))\<lparr>subscribedTickers := set_add (subscribedTickers s) t\<rparr>
            | _ \<Rightarrow> s)
      else s)"

definition handleSubscription :: "socket \<Rightarrow> payload \<Rightarrow> socket" where
  "handleSubscription s tickers =
     (let tickersToJoin = ensure_array tickers in
      if length tickersToJoin = 0 then s
      else emit (fold (\<lambda>ticker s'. subscribe_ticker s' ticker) tickersToJoin s)
             (Subscribed tickersToJoin))"

definition unsubscribe_ticker :: "socket \<Rightarrow> jsval \<Rightarrow> socket" where
  "unsubscribe_ticker s ticker =
     (if truthy ticker \<and> typeof_string ticker
      then (case ticker of
              JStr t \<Rightarrow> (leave s (roomName t))\<lparr>subscribedTickers := set_delete (subscribedTickers s) t\<rparr>
            | _ \<Rightarrow> s)
      else s)"

definition handleUnsubscription :: "socket \<Rightarrow> payload \<Rightarrow> socket" where
  "handleUnsubscription s tickers =
     (let tickersToLeave = ensure_array tickers in
      if length tickersToLeave = 0 then s
      else emit (fold (\<lambda>ticker s'. unsubscribe_ticker s' ticker) tickersToLeave s)
             (Unsubscribed tickersToLeave))"

text \<open>
  \<open>io.to(roomName).emit(ev)\<close>: the event goes to every connected socket in the room.
  \<open>io\<close> is the module-level variable, \<open>None\<close> until \<open>initWebSocketServer\<close> has run.
\<close>

definition to_room_emit :: "socket list \<Rightarrow> string \<Rightarrow> event \<Rightarrow> socket list" where
  "to_room_emit sockets room ev =
     map (\<lambda>s. if room \<in> set (rooms s) then emit s ev else s) sockets"

definition broadcastStockUpdate ::
  "socket list option \<Rightarrow> jsval \<Rightarrow> quote option \<Rightarrow> socket list option" where
  "broadcastStockUpdate io ticker data =
     (case io of
        None \<Rightarrow> io
      | Some sockets \<Rightarrow>
          if \<not> truthy ticker \<or> \<not> typeof_string ticker then io
          else (case ticker of
                  JStr t \<Rightarrow> Some (to_room_emit sockets (roomName t) (StockUpdate t data))
                | _ \<Rightarrow> io))"

section \<open>services/yahooFinanceService.js\<close>

text \<open>
  One element of the yahoo-finance2 reply, with the fields \<open>fetchStockData\<close> reads.
  \<open>q_symbol\<close> is \<open>quote.symbol\<close>, a string when present.
\<close>

record raw_quote =
  q_symbol :: "string option"
  q_shortName :: jsval
  regularMarketPrice :: jsval
  regularMarketChange :: jsval
  regularMarketChangePercent :: jsval
  regularMarketVolume :: jsval
  q_marketState :: jsval
  regularMarketTime :: jsval

text \<open>The reply of \<open>yahooFinance.quote\<close>: an array (whose elements may be falsy) or one object.\<close>

datatype yahoo_reply = QArray "raw_quote option list" | QSingle "raw_quote option"

text \<open>
  \<open>new Date(ms)\<close> followed by the \<open>isNaN(getTime())\<close> check: the time value is clipped
  to \<open>\<plusminus>8.64e15\<close> and truncated toward zero.
\<close>

definition new_Date :: "rat \<Rightarrow> int option" where
  "new_Date ms =
     (if \<bar>ms\<bar> > 8640000000000000 then None
      else Some (if 0 \<le> ms then \<lfloor>ms\<rfloor> else \<lceil>ms\<rceil>))"

fun typeof_number :: "jsval \<Rightarrow> bool" where
  "typeof_number (JNum r) = True"
| "typeof_number JNaN = True"
| "typeof_number JInfinity = True"
| "typeof_number v = False"

fun isFinite :: "jsval \<Rightarrow> bool" where
  "isFinite (JNum r) = True"
| "isFinite v = False"

text \<open>
  The product \<open>marketTime * 1000\<close> is a product of doubles. It is the parameter
  \<open>times_1000\<close>: the double nearest to the exact product, or \<open>None\<close> when the product
  overflows to \<open>Infinity\<close>, of which \<open>new Date\<close> makes an invalid date.
\<close>

definition timestampObj :: "(rat \<Rightarrow> rat option) \<Rightarrow> jsval \<Rightarrow> int option" where
  "timestampObj times_1000 marketTime =
     (case marketTime of
        JDate d \<Rightarrow> (case d of None \<Rightarrow> None | Some ms \<Rightarrow> Some ms)
      | _ \<Rightarrow>
          if truthy marketTime \<and> typeof_number marketTime \<and> isFinite marketTime
          then (case marketTime of
                  JNum r \<Rightarrow> (case times_1000 r of None \<Rightarrow> None | Some ms \<Rightarrow> new_Date ms)
                | _ \<Rightarrow> None)
          else None)"

definition quotesArray :: "yahoo_reply \<Rightarrow> raw_quote option list" where
  "quotesArray quoteResults =
     (case quoteResults of
        QArray qs \<Rightarrow> filter (\<lambda>q. q \<noteq> None) qs
      | QSingle q \<Rightarrow> filter (\<lambda>q. q \<noteq> None) [q])"

definition process_quote ::
  "(rat \<Rightarrow> rat option) \<Rightarrow> jsobject \<Rightarrow> raw_quote option \<Rightarrow> jsobject" where
  "process_quote times_1000 results q =
     (case q of
        None \<Rightarrow> results
      | Some rq \<Rightarrow>
          (case q_symbol rq of
             None \<Rightarrow> results
           | Some ticker \<Rightarrow>
               if ticker = [] then results
               else obj_set results ticker
                      (Some \<lparr>price = regularMarketPrice rq,
                              change = regularMarketChange rq,
                              changePercent = regularMarketChangePercent rq,
                              volume = regularMarketVolume rq,
                              marketState = q_marketState rq,
                              symbol = ticker,
                              shortName = q_shortName rq,
                              timestamp = timestampObj times_1000 (regularMarketTime rq)\<rparr>)))"

text \<open>
  The final check, for one ticker and for all of them. The call of \<open>hasOwnProperty\<close> can
  throw; \<open>mark_all\<close> then stops with \<open>results\<close> as the earlier rounds left it.
\<close>

definition mark_missing :: "jsobject \<Rightarrow> string \<Rightarrow> js_error + jsobject" where
  "mark_missing results ticker =
     (case hasOwnProperty results ticker of
        Inl e \<Rightarrow> Inl e
      | Inr has \<Rightarrow> Inr (if \<not> has then obj_set results ticker None else results))"

fun mark_all :: "jsobject \<Rightarrow> string list \<Rightarrow> jsobject \<times> (js_error + unit)" where
  "mark_all results [] = (results, Inr ())"
| "mark_all results (ticker # tickers) =
     (case mark_missing results ticker of
        Inl e \<Rightarrow> (results, Inl e)
      | Inr results' \<Rightarrow> mark_all results' tickers)"

text \<open>
  \<open>yahoo_quote\<close> is the call \<open>yahooFinance.quote(tickers, queryOptions)\<close>: it throws or
  replies. \<open>try_block\<close> is the \<open>try\<close> block: it gives \<open>results\<close> as the block left it,
  and whether the block ended or threw. The \<open>catch\<close> block then sets every requested
  ticker to \<open>null\<close> in that object.
\<close>

definition try_block ::
  "(rat \<Rightarrow> rat option) \<Rightarrow> (string list \<Rightarrow> js_error + yahoo_reply) \<Rightarrow> string list
     \<Rightarrow> jsobject \<times> (js_error + unit)" where
  "try_block times_1000 yahoo_quote tickers =
     (case yahoo_quote tickers of
        Inl e \<Rightarrow> (empty_object, Inl e)
      | Inr quoteResults \<Rightarrow>
          mark_all
            (fold (\<lambda>q results. process_quote times_1000 results q) (quotesArray quoteResults)
               empty_object)
            tickers)"

definition fetchStockData ::
  "(rat \<Rightarrow> rat option) \<Rightarrow> (string list \<Rightarrow> js_error + yahoo_reply) \<Rightarrow> string list
     \<Rightarrow> js_error + jsobject" where
  "fetchStockData times_1000 yahoo_quote tickers =
     (if length tickers = 0 then Inr empty_object
      else
        (case try_block times_1000 yahoo_quote tickers of
           (results, Inr u) \<Rightarrow> Inr results
         | (results, Inl error) \<Rightarrow>
             Inr (fold (\<lambda>ticker results. obj_set results ticker None) tickers results)))"

section \<open>services/cacheService.js\<close>

text \<open>
  Modelled from the spec: the Redis server behind \<open>redisClient\<close>, which is outside the
  repository. Each entry carries an expiry = write-time + TTL, checked at read time; a read
  at or after the expiry is a miss. Times are in seconds. While the server is not
  \<open>available\<close>, a read is rejected and a pipeline is rejected without writing.
\<close>

record redis =
  entries :: "string \<rightharpoonup> string \<times> nat"
  available :: bool

definition redis_set :: "redis \<Rightarrow> nat \<Rightarrow> string \<times> string \<times> nat \<Rightarrow> redis" where
  "redis_set r now cmd =
     (case cmd of (key, val, ttl) \<Rightarrow> r\<lparr>entries := (entries r)(key \<mapsto> (val, now + ttl))\<rparr>)"

definition redis_get :: "redis \<Rightarrow> nat \<Rightarrow> string \<Rightarrow> redis \<times> (js_error + string option)" where
  "redis_get r now key =
     (if \<not> available r then (r, Inl (Error ''Connection is closed.''))
      else (r, Inr (case entries r key of
                      None \<Rightarrow> None
                    | Some (val, expiry) \<Rightarrow> if now < expiry then Some val else None)))"

definition redis_exec ::
  "redis \<Rightarrow> nat \<Rightarrow> (string \<times> string \<times> nat) list \<Rightarrow> redis \<times> (js_error + unit)" where
  "redis_exec r now pipeline =
     (if \<not> available r then (r, Inl (Error ''Connection is closed.''))
      else (fold (\<lambda>cmd r'. redis_set r' now cmd) pipeline r, Inr ()))"

definition CACHE_EXPIRY_SECONDS :: nat where
  "CACHE_EXPIRY_SECONDS = 300"

text \<open>
  \<open>json_stringify\<close> and \<open>json_parse\<close> are \<open>JSON.stringify\<close> and \<open>JSON.parse\<close>; a parsed
  text is a JSON value, \<open>null\<close> among them.
\<close>

datatype json =
    JsonNull
  | JsonBool bool
  | JsonNum rat
  | JsonStr string
  | JsonArr "json list"
  | JsonObj "(string \<times> json) list"

fun json_truthy :: "json \<Rightarrow> bool" where
  "json_truthy JsonNull = False"
| "json_truthy (JsonBool b) = b"
| "json_truthy (JsonNum r) = (r \<noteq> 0)"
| "json_truthy (JsonStr s) = (s \<noteq> [])"
| "json_truthy (JsonArr vs) = True"
| "json_truthy (JsonObj kvs) = True"

text \<open>
  \<open>pipeline_of\<close> is the loop of \<open>cacheStockUpdates\<close>, which queues one \<open>SET\<close> with
  \<open>EX\<close> for each entry whose data is not \<open>null\<close>; \<open>cachedCount\<close> is their number.
\<close>

fun pipeline_loop ::
  "(quote \<Rightarrow> string) \<Rightarrow> (string \<times> quote option) list \<Rightarrow> (string \<times> string \<times> nat) list" where
  "pipeline_loop json_stringify [] = []"
| "pipeline_loop json_stringify ((ticker, data) # rest) =
     (case data of
        None \<Rightarrow> pipeline_loop json_stringify rest
      | Some d \<Rightarrow>
          (''stock:'' @ ticker, json_stringify d, CACHE_EXPIRY_SECONDS)
            # pipeline_loop json_stringify rest)"

definition pipeline_of :: "(quote \<Rightarrow> string) \<Rightarrow> jsobject \<Rightarrow> (string \<times> string \<times> nat) list" where
  "pipeline_of json_stringify stockData = pipeline_loop json_stringify (object_entries stockData)"

definition cacheStockUpdates ::
  "(quote \<Rightarrow> string) \<Rightarrow> redis \<Rightarrow> nat \<Rightarrow> jsobject \<Rightarrow> redis \<times> (js_error + unit)" where
  "cacheStockUpdates json_stringify r now stockData =
     (if length (object_keys stockData) = 0 then (r, Inr ())
      else
        let pipeline = pipeline_of json_stringify stockData;
            cachedCount = length pipeline
        in if cachedCount > 0
           then (case redis_exec r now pipeline of
                   (r', res) \<Rightarrow> (r', try_catch res (\<lambda>error. Inr ())))
           else (r, Inr ()))"

text \<open>
  \<open>getCachedStockData\<close> returns the parsed text, or \<open>null\<close> (\<open>JsonNull\<close>) when there is
  no text, when the text is empty, and when the read or the parsing throws.
\<close>

definition getCachedStockData ::
  "(string \<Rightarrow> js_error + json) \<Rightarrow> redis \<Rightarrow> nat \<Rightarrow> string \<Rightarrow> redis \<times> (js_error + json)" where
  "getCachedStockData json_parse r now ticker =
     (let key = ''stock:'' @ ticker in
      case redis_get r now key of
        (r', res) \<Rightarrow>
          (r', try_catch
                 (case res of
                    Inl e \<Rightarrow> Inl e
                  | Inr data \<Rightarrow>
                      (case data of
                         None \<Rightarrow> Inr JsonNull
                       | Some text \<Rightarrow>
                           if text = [] then Inr JsonNull else json_parse text))
                 (\<lambda>error. Inr JsonNull)))"

section \<open>services/tickerService.js\<close>

text \<open>
  \<open>findMany\<close> is the outcome of the \<open>prisma.watchlist.findMany\<close> call: it throws, or
  gives the \<open>ticker\<close> of each row found.
\<close>

definition getMasterTickerList :: "js_error + string list \<Rightarrow> js_error + string list" where
  "getMasterTickerList findMany =
     try_catch
       (case findMany of
          Inl e \<Rightarrow> Inl e
        | Inr distinctTickers \<Rightarrow> Inr (fold (\<lambda>ticker tickerSet. set_add tickerSet ticker) distinctTickers []))
       (\<lambda>error. Inr [])"

section \<open>server.js\<close>

text \<open>The state a tick works on: the cache and the Socket.IO server.\<close>

record world =
  redis :: redis
  io :: "socket list option"

text \<open>
  One tick. The first statement is outside the \<open>try\<close> block, so an exception of
  \<open>getMasterTickerList\<close> would leave the function (\<open>Inl\<close>).
\<close>

definition runPeriodicFetch ::
  "js_error + string list \<Rightarrow> (rat \<Rightarrow> rat option) \<Rightarrow> (string list \<Rightarrow> js_error + yahoo_reply)
     \<Rightarrow> (quote \<Rightarrow> string) \<Rightarrow> nat \<Rightarrow> world \<Rightarrow> world \<times> (js_error + unit)" where
  "runPeriodicFetch findMany times_1000 yahoo_quote json_stringify now w =
     (case getMasterTickerList findMany of
        Inl e \<Rightarrow> (w, Inl e)
      | Inr tickersToFetch \<Rightarrow>
          if length tickersToFetch = 0 then (w, Inr ())
          else
            (case fetchStockData times_1000 yahoo_quote tickersToFetch of
               Inl e \<Rightarrow> (w, try_catch (Inl e) (\<lambda>error. Inr ()))
             | Inr results \<Rightarrow>
                 if length (object_keys results) > 0 then
                   let validUpdates = filter (\<lambda>(_, data). data \<noteq> None) (object_entries results) in
                   if length validUpdates > 0 then
                     let dataToCache = object_fromEntries validUpdates in
                     (case cacheStockUpdates json_stringify (redis w) now dataToCache of
                        (r', Inl e) \<Rightarrow> (w\<lparr>redis := r'\<rparr>, try_catch (Inl e) (\<lambda>error. Inr ()))
                      | (r', Inr u) \<Rightarrow>
                          (\<lparr>redis = r',
                            io = fold (\<lambda>(ticker, data) io'. broadcastStockUpdate io' (JStr ticker) data)
                                   validUpdates (io w)\<rparr>,
                           Inr ()))
                   else (w, Inr ())
                 else (w, Inr ())))"

section \<open>controllers/stockController.js\<close>

datatype body =
    ErrorBody string
  | CachedStock string json          \<comment> \<open>\<open>{ [ticker]: stockData }\<close> from the cache\<close>
  | FreshStock string quote          \<comment> \<open>\<open>{ [ticker]: stockData }\<close> from the adapter\<close>
  | InheritedStock string jsval      \<comment> \<open>\<open>{ [ticker]: stockData }\<close> from the prototype chain\<close>

datatype response = Response nat body

text \<open>
  The \<open>validTickers\<close> of \<open>addToWatchlist\<close> and \<open>removeFromWatchlist\<close>: the
  filter and the map over the body's \<open>tickers\<close> array, whose result is what the handler
  writes to, or deletes from, the watchlist table.
\<close>

definition validTickers :: "(string \<Rightarrow> string) \<Rightarrow> jsval list \<Rightarrow> string list" where
  "validTickers unicode_upper tickers =
     map (toUpperCase unicode_upper)
       (concat (map (\<lambda>t. case t of
                            JStr str \<Rightarrow> if length str > 0 \<and> length str < 20 then [str] else []
                          | _ \<Rightarrow> [])
                    tickers))"

text \<open>
  \<open>searchStock\<close>: \<open>param\<close> is \<open>req.params.ticker\<close>. \<open>stockData\<close> is first the cached
  value and then, when that is falsy, \<open>results[ticker]\<close>; either is answered when truthy.
\<close>

definition searchStock ::
  "(string \<Rightarrow> string) \<Rightarrow> (string \<Rightarrow> js_error + json) \<Rightarrow> (rat \<Rightarrow> rat option)
     \<Rightarrow> (string list \<Rightarrow> js_error + yahoo_reply) \<Rightarrow> redis \<Rightarrow> nat \<Rightarrow> string option
     \<Rightarrow> redis \<times> (js_error + response)" where
  "searchStock unicode_upper json_parse times_1000 yahoo_quote r now param =
     (case map_option (toUpperCase unicode_upper) param of
        None \<Rightarrow> (r, Inr (Response 400 (ErrorBody ''Invalid ticker symbol'')))
      | Some ticker \<Rightarrow>
          if ticker = [] \<or> length ticker > 20
          then (r, Inr (Response 400 (ErrorBody ''Invalid ticker symbol'')))
          else
            (case getCachedStockData json_parse r now ticker of
               (r', cached) \<Rightarrow>
                 (r', try_catch
                        (case cached of
                           Inl e \<Rightarrow> Inl e
                         | Inr stockData \<Rightarrow>
                             if json_truthy stockData
                             then Inr (Response 200 (CachedStock ticker stockData))
                             else
                               (case fetchStockData times_1000 yahoo_quote [ticker] of
                                  Inl e \<Rightarrow> Inl e
                                | Inr results \<Rightarrow>
                                    (case obj_get results ticker of
                                       Own (Some stockData) \<Rightarrow>
                                         Inr (Response 200 (FreshStock ticker stockData))
                                     | Own None \<Rightarrow>
                                         Inr (Response 404
                                                (ErrorBody (''Data not found for ticker: '' @ ticker)))
                                     | Inherited v \<Rightarrow>
                                         if truthy v
                                         then Inr (Response 200 (InheritedStock ticker v))
                                         else Inr (Response 404
                                                     (ErrorBody (''Data not found for ticker: '' @ ticker)))
                                     | Undefined \<Rightarrow>
                                         Inr (Response 404
                                                (ErrorBody (''Data not found for ticker: '' @ ticker))))))
                        (\<lambda>error. Inr (Response 500 (ErrorBody ''Failed to search stock data''))))))"

section \<open>Vocabulary of the statements\<close>

text \<open>What the adapter's results look like.\<close>

definition results_wf :: "jsobject \<Rightarrow> bool" where
  "results_wf results =
     (distinct (map fst (own results)) \<and> (\<forall>(k, d) \<in> set (own results). d \<noteq> None \<longrightarrow> k \<noteq> []))"

text \<open>The updates of one tick that are addressed to a room the socket is in.\<close>

fun room_updates :: "socket \<Rightarrow> (string \<times> quote option) list \<Rightarrow> event list" where
  "room_updates s [] = []"
| "room_updates s ((ticker, data) # rest) =
     (if data \<noteq> None \<and> roomName ticker \<in> set (rooms s)
      then StockUpdate ticker data # room_updates s rest
      else room_updates s rest)"

definition updates_for :: "socket \<Rightarrow> jsobject \<Rightarrow> event list" where
  "updates_for s results = room_updates s (object_entries results)"

definition deliver :: "(string \<times> quote option) list \<Rightarrow> socket \<Rightarrow> socket" where
  "deliver kvs s = s\<lparr>outbox := outbox s @ room_updates s kvs\<rparr>"

text \<open>
  The states of a connected socket: the \<open>connection\<close> callback has run, and then any
  number of \<open>subscribe\<close> and \<open>unsubscribe\<close> events have been handled and any number of
  events have been emitted to it.
\<close>

inductive connected :: "socket \<Rightarrow> bool" where
  connection: "connected (on_connection s)"
| subscribe: "connected s \<Longrightarrow> connected (handleSubscription s p)"
| unsubscribe: "connected s \<Longrightarrow> connected (handleUnsubscription s p)"
| emitted: "connected s \<Longrightarrow> connected (emit s ev)"

section \<open>Example inputs\<close>

definition socket0 :: socket where
  "socket0 = \<lparr>sid = ''s1'', handshake_token = JStr ''tok'', user = Some (JNum 7), rooms = [''s1''],
     subscribedTickers = [], outbox = []\<rparr>"

definition quote0 :: quote where
  "quote0 = \<lparr>price = JNum 150, change = JNum 1, changePercent = JNum (2/3), volume = JNum 1000,
     marketState = JStr ''REGULAR'', symbol = ''AAPL'', shortName = JStr ''Apple Inc.'',
     timestamp = Some 1700000000000\<rparr>"

text \<open>A verifier that accepts one token, finds one expired and rejects every other.\<close>

definition verify0 :: "jsval \<Rightarrow> string \<Rightarrow> string + jsval" where
  "verify0 token secret =
     (if token = JStr ''good'' then Inr (JNum 7)
      else if token = JStr ''old'' then Inl ''jwt expired''
      else Inl ''invalid signature'')"

definition raw_aapl :: raw_quote where
  "raw_aapl = \<lparr>q_symbol = Some ''AAPL'', q_shortName = JStr ''Apple Inc.'',
     regularMarketPrice = JNum 150, regularMarketChange = JNum 1,
     regularMarketChangePercent = JNum (2/3), regularMarketVolume = JNum 1000,
     q_marketState = JStr ''REGULAR'', regularMarketTime = JDate (Some 1700000000000)\<rparr>"

text \<open>An upstream that knows \<open>AAPL\<close> only, and one that is down.\<close>

definition yahoo0 :: "string list \<Rightarrow> js_error + yahoo_reply" where
  "yahoo0 tickers = Inr (QArray [Some raw_aapl])"

definition yahoo_down :: "string list \<Rightarrow> js_error + yahoo_reply" where
  "yahoo_down tickers = Inl (Error ''network'')"

text \<open>
  Stand-ins for the runtime: the product of doubles (exact here), \<open>toUpperCase\<close> outside
  ASCII, \<open>JSON.stringify\<close> and \<open>JSON.parse\<close>.
\<close>

definition times0 :: "rat \<Rightarrow> rat option" where
  "times0 x = Some (x * 1000)"

definition upper0 :: "string \<Rightarrow> string" where
  "upper0 s = s"

definition stringify0 :: "quote \<Rightarrow> string" where
  "stringify0 q = ''quote:'' @ symbol q"

definition parse0 :: "string \<Rightarrow> js_error + json" where
  "parse0 text = Inr (JsonObj [(''text'', JsonStr text)])"

definition redis0 :: redis where
  "redis0 = \<lparr>entries = Map.empty, available = True\<rparr>"

definition socket1 :: socket where
  "socket1 = socket0\<lparr>rooms := [''s1'', ''stock_AAPL'', ''stock_MSFT''],
                       subscribedTickers := [''AAPL'', ''MSFT'']\<rparr>"

definition world0 :: world where
  "world0 = \<lparr>redis = redis0, io = Some [socket1]\<rparr>"

definition results0 :: jsobject where
  "results0 = \<lparr>own = [(''AAPL'', Some quote0), (''MSFT'', None)], proto = ObjectPrototype\<rparr>"

section \<open>Sets and the subscription handlers\<close>

lemma set_set_add: "set (set_add xs x) = insert x (set xs)"
  by (auto simp: set_add_def)

lemma set_add_member: "x \<in> set xs \<Longrightarrow> set_add xs x = xs"
  by (simp add: set_add_def)

lemma outbox_subscribe_ticker: "outbox (subscribe_ticker s v) = outbox s"
  by (cases v) (simp_all add: subscribe_ticker_def join_def)

lemma outbox_fold_subscribe:
  "outbox (fold (\<lambda>ticker s'. subscribe_ticker s' ticker) xs s) = outbox s"
  by (induction xs arbitrary: s) (simp_all add: outbox_subscribe_ticker)

lemma subscribed_subscribe_ticker:
  "set (subscribedTickers (subscribe_ticker s v)) =
     set (subscribedTickers s) \<union> {t. v = JStr t \<and> t \<noteq> []}"
  by (cases v) (auto simp: subscribe_ticker_def join_def set_set_add)

lemma rooms_subscribe_ticker:
  "set (rooms (subscribe_ticker s v)) =
     set (rooms s) \<union> roomName ` {t. v = JStr t \<and> t \<noteq> []}"
  by (cases v) (auto simp: subscribe_ticker_def join_def set_set_add)

lemma subscribed_fold_subscribe:
  "set (subscribedTickers (fold (\<lambda>ticker s'. subscribe_ticker s' ticker) xs s)) =
     set (subscribedTickers s) \<union> {t. JStr t \<in> set xs \<and> t \<noteq> []}"
  by (induction xs arbitrary: s) (auto simp: subscribed_subscribe_ticker)

lemma rooms_fold_subscribe:
  "set (rooms (fold (\<lambda>ticker s'. subscribe_ticker s' ticker) xs s)) =
     set (rooms s) \<union> roomName ` {t. JStr t \<in> set xs \<and> t \<noteq> []}"
  by (induction xs arbitrary: s) (auto simp: rooms_subscribe_ticker)

text \<open>
  C1, as the code has it, for requests without lower-case letters (what becomes of those
  is the matter of C2). The entries of a request are the array sent, or the one value
  sent in place of an array when it is truthy. Every entry that is a non-empty string is
  added to the subscription set as it is (nothing is trimmed), and its room to the
  socket's rooms; every other entry is skipped on its own. A request without entries
  changes nothing and is not acknowledged. A request whose entries are all non-empty
  strings is acknowledged with exactly these entries, in their order and as often as the
  request has them.
\<close>

theorem subscribe_accepts_entries:
  assumes "\<forall>t. JStr t \<in> set (ensure_array p) \<longrightarrow> map toUpperChar t = t"
  shows "set (subscribedTickers (handleSubscription s p)) =
           set (subscribedTickers s) \<union> {t. JStr t \<in> set (ensure_array p) \<and> t \<noteq> []}
       \<and> set (rooms (handleSubscription s p)) =
           set (rooms s) \<union> roomName ` {t. JStr t \<in> set (ensure_array p) \<and> t \<noteq> []}
       \<and> (ensure_array p = [] \<longrightarrow> handleSubscription s p = s)
       \<and> (ensure_array p \<noteq> [] \<and> (\<forall>v \<in> set (ensure_array p). \<exists>t. v = JStr t \<and> t \<noteq> [])
            \<longrightarrow> outbox (handleSubscription s p) = outbox s @ [Subscribed (ensure_array p)])"
  by (auto simp: handleSubscription_def Let_def emit_def subscribed_fold_subscribe
      rooms_fold_subscribe outbox_fold_subscribe)

theorem subscribe_accepts_entries_witness:
  "set (subscribedTickers
          (handleSubscription socket0 (PArray [JStr ''AAPL'', JNum 5, JStr '' MSFT'', JStr ''''])))
     = {''AAPL'', '' MSFT''}
   \<and> outbox (handleSubscription socket0 (PArray [JStr ''AAPL'', JStr ''AAPL'']))
     = [Subscribed [JStr ''AAPL'', JStr ''AAPL'']]
   \<and> outbox (handleSubscription socket0 (PValue (JStr ''AAPL''))) = [Subscribed [JStr ''AAPL'']]
   \<and> handleSubscription socket0 (PArray []) = socket0
   \<and> handleSubscription socket0 (PValue (JStr '''')) = socket0"
proof -
  have "set (subscribedTickers
          (handleSubscription socket0 (PArray [JStr ''AAPL'', JNum 5, JStr '' MSFT'', JStr ''''])))
     = {''AAPL'', '' MSFT''}"
    using subscribe_accepts_entries
      [of "PArray [JStr ''AAPL'', JNum 5, JStr '' MSFT'', JStr '''']" socket0]
    by (auto simp: ensure_array_def socket0_def)
  moreover have "outbox (handleSubscription socket0 (PArray [JStr ''AAPL'', JStr ''AAPL'']))
     = [Subscribed [JStr ''AAPL'', JStr ''AAPL'']]"
    using subscribe_accepts_entries [of "PArray [JStr ''AAPL'', JStr ''AAPL'']" socket0]
    by (simp add: ensure_array_def socket0_def)
  moreover have "outbox (handleSubscription socket0 (PValue (JStr ''AAPL''))) = [Subscribed [JStr ''AAPL'']]"
    using subscribe_accepts_entries [of "PValue (JStr ''AAPL'')" socket0]
    by (simp add: ensure_array_def socket0_def)
  moreover have "handleSubscription socket0 (PArray []) = socket0"
    using subscribe_accepts_entries [of "PArray []" socket0]
    by (simp add: ensure_array_def)
  moreover have "handleSubscription socket0 (PValue (JStr '''')) = socket0"
    using subscribe_accepts_entries [of "PValue (JStr '''')" socket0]
    by (simp add: ensure_array_def)
  ultimately show ?thesis by simp
qed

text \<open>
  C1 as stated fails. Subscribing to \<open>["aapl", "AAPL", ""]\<close> is acknowledged with
  \<open>["aapl", "AAPL", ""]\<close>, not \<open>["AAPL"]\<close>; and with no letter case involved,
  subscribing to \<open>["AAPL", "AAPL", ""]\<close> is acknowledged with \<open>["AAPL", "AAPL", ""]\<close>.
\<close>

theorem subscribe_ack_counterexample:
  "handleSubscription socket0 (PArray [JStr ''aapl'', JStr ''AAPL'', JStr ''''])
     = socket0\<lparr>rooms := [''s1'', ''stock_aapl'', ''stock_AAPL''],
                subscribedTickers := [''aapl'', ''AAPL''],
                outbox := [Subscribed [JStr ''aapl'', JStr ''AAPL'', JStr '''']]\<rparr>
   \<and> [JStr ''aapl'', JStr ''AAPL'', JStr ''''] \<noteq> [JStr ''AAPL'']
   \<and> handleSubscription socket0 (PArray [JStr ''AAPL'', JStr ''AAPL'', JStr ''''])
     = socket0\<lparr>rooms := [''s1'', ''stock_AAPL''],
                subscribedTickers := [''AAPL''],
                outbox := [Subscribed [JStr ''AAPL'', JStr ''AAPL'', JStr '''']]\<rparr>
   \<and> [JStr ''AAPL'', JStr ''AAPL'', JStr ''''] \<noteq> [JStr ''AAPL'']"
  by (simp add: handleSubscription_def ensure_array_def subscribe_ticker_def join_def emit_def
      set_add_def roomName_def socket0_def)

text \<open>
  The room of a symbol is \<open>stock_<symbol>\<close> with the symbol as it was given, in
  subscribe, unsubscribe and publish alike, and two symbols name the same room only when
  they are the same string.
\<close>

lemma room_names_verbatim:
  "rooms (handleSubscription s (PArray [JStr t]))
     = (if t = [] then rooms s else set_add (rooms s) (''stock_'' @ t))
   \<and> rooms (handleUnsubscription s' (PArray [JStr t]))
     = (if t = [] then rooms s' else set_delete (rooms s') (''stock_'' @ t))
   \<and> broadcastStockUpdate (Some sockets) (JStr t) d
     = Some (if t = [] then sockets else to_room_emit sockets (''stock_'' @ t) (StockUpdate t d))
   \<and> (roomName a = roomName b \<longleftrightarrow> a = b)"
  by (simp add: handleSubscription_def handleUnsubscription_def ensure_array_def
      subscribe_ticker_def unsubscribe_ticker_def join_def leave_def emit_def
      broadcastStockUpdate_def roomName_def)

text \<open>
  C2 does not hold of the code. The watchlist handler stores the symbol \<open>aapl\<close> as
  \<open>AAPL\<close>, the symbol a tick then publishes under; but a subscribe request for \<open>aapl\<close>
  joins the room \<open>stock_aapl\<close>, a request for \<open>AAPL\<close> joins \<open>stock_AAPL\<close>, and the
  update published for \<open>AAPL\<close> does not reach the socket subscribed to \<open>aapl\<close>.
\<close>

theorem lowercase_subscription_misses_update:
  "validTickers unicode_upper [JStr ''aapl''] = [''AAPL'']
   \<and> rooms (handleSubscription socket0 (PArray [JStr ''aapl''])) = [''s1'', ''stock_aapl'']
   \<and> rooms (handleSubscription socket0 (PArray [JStr ''AAPL''])) = [''s1'', ''stock_AAPL'']
   \<and> broadcastStockUpdate (Some [handleSubscription socket0 (PArray [JStr ''aapl''])])
         (JStr ''AAPL'') (Some quote0)
       = Some [socket0\<lparr>rooms := [''s1'', ''stock_aapl''], subscribedTickers := [''aapl''],
                 outbox := [Subscribed [JStr ''aapl'']]\<rparr>]"
  by (simp add: handleSubscription_def ensure_array_def subscribe_ticker_def join_def emit_def
      set_add_def roomName_def socket0_def broadcastStockUpdate_def to_room_emit_def
      validTickers_def toUpperCase_def is_ascii_def)

theorem lowercase_subscription_misses_update_witness:
  "broadcastStockUpdate (Some [handleSubscription socket0 (PArray [JStr ''aapl''])])
         (JStr ''AAPL'') (Some quote0)
       = Some [handleSubscription socket0 (PArray [JStr ''aapl''])]"
  using lowercase_subscription_misses_update
  by (simp add: handleSubscription_def ensure_array_def subscribe_ticker_def join_def emit_def
      set_add_def roomName_def socket0_def)

section \<open>The handshake\<close>

text \<open>
  C5. With a signing secret configured, a connection attempt whose token is absent, or
  whose token the verifier rejects (expired, bad signature), is refused by the middleware:
  the \<open>connection\<close> callback, which alone creates the subscription set and sends
  \<open>welcome\<close>, does not run, and the connected sockets are as before.
\<close>

theorem handshake_refused:
  assumes "JWT_SECRET = Some secret" and "secret \<noteq> []"
    and "\<not> truthy (handshake_token s)
           \<or> (\<exists>message. jwt_verify (handshake_token s) secret = Inl message)"
  shows "\<exists>e. authMiddleware JWT_SECRET jwt_verify s = Inl e
           \<and> handshake JWT_SECRET jwt_verify sockets s = (Inl e, sockets)"
  using assms by (auto simp: handshake_def authMiddleware_def Let_def)

theorem handshake_refused_witness:
  "verify0 (handshake_token (socket0\<lparr>handshake_token := JStr ''old''\<rparr>)) ''k3y'' = Inl ''jwt expired''
   \<and> authMiddleware (Some ''k3y'') verify0 (socket0\<lparr>handshake_token := JStr ''old''\<rparr>)
       = Inl (Error ''Authentication error: jwt expired'')
   \<and> handshake (Some ''k3y'') verify0 [] (socket0\<lparr>handshake_token := JStr ''old''\<rparr>)
       = (Inl (Error ''Authentication error: jwt expired''), [])"
  using handshake_refused [of "Some ''k3y''" "''k3y''" "socket0\<lparr>handshake_token := JStr ''old''\<rparr>" verify0 "[]"]
  by (simp add: handshake_def authMiddleware_def verify0_def socket0_def)

text \<open>For contrast, a token that verifies is welcomed.\<close>

lemma handshake_accepted_example:
  "handshake (Some ''k3y'') verify0 [] (socket0\<lparr>handshake_token := JStr ''good'', user := None\<rparr>)
     = (Inr (), [socket0\<lparr>handshake_token := JStr ''good'', outbox := [Welcome ''s1'' (JNum 7)]\<rparr>])"
  by (simp add: handshake_def authMiddleware_def verify0_def socket0_def on_connection_def emit_def)

section \<open>Subscribing again\<close>

lemma subscribe_ticker_noop:
  assumes "\<And>t. v = JStr t \<Longrightarrow> t \<noteq> [] \<Longrightarrow>
             t \<in> set (subscribedTickers s) \<and> roomName t \<in> set (rooms s)"
  shows "subscribe_ticker s v = s"
proof (cases v)
  case (JStr t)
  show ?thesis
  proof (cases "t = []")
    case True
    with JStr show ?thesis by (simp add: subscribe_ticker_def)
  next
    case False
    with assms[OF JStr] JStr show ?thesis
      by (simp add: subscribe_ticker_def join_def set_add_member)
  qed
qed (simp_all add: subscribe_ticker_def)

lemma fold_subscribe_noop:
  assumes "\<And>t. JStr t \<in> set xs \<Longrightarrow> t \<noteq> [] \<Longrightarrow>
             t \<in> set (subscribedTickers s) \<and> roomName t \<in> set (rooms s)"
  shows "fold (\<lambda>ticker s'. subscribe_ticker s' ticker) xs s = s"
  using assms
proof (induction xs)
  case Nil
  show ?case by simp
next
  case (Cons v xs)
  have step: "subscribe_ticker s v = s"
    by (rule subscribe_ticker_noop) (simp add: Cons.prems)
  have "fold (\<lambda>ticker s'. subscribe_ticker s' ticker) xs s = s"
    by (rule Cons.IH) (simp add: Cons.prems)
  with step show ?case by simp
qed

lemma set_set_delete: "set (set_delete xs x) = set xs - {x}"
  by (auto simp: set_delete_def)

lemma subscribed_unsubscribe_ticker:
  "set (subscribedTickers (unsubscribe_ticker s v)) =
     set (subscribedTickers s) - {t. v = JStr t \<and> t \<noteq> []}"
  by (cases v) (auto simp: unsubscribe_ticker_def leave_def set_set_delete)

lemma rooms_unsubscribe_ticker:
  "set (rooms (unsubscribe_ticker s v)) =
     set (rooms s) - roomName ` {t. v = JStr t \<and> t \<noteq> []}"
  by (cases v) (auto simp: unsubscribe_ticker_def leave_def set_set_delete)

lemma subscribed_fold_unsubscribe:
  "set (subscribedTickers (fold (\<lambda>ticker s'. unsubscribe_ticker s' ticker) xs s)) =
     set (subscribedTickers s) - {t. JStr t \<in> set xs \<and> t \<noteq> []}"
  by (induction xs arbitrary: s) (auto simp: subscribed_unsubscribe_ticker)

lemma rooms_fold_unsubscribe:
  "set (rooms (fold (\<lambda>ticker s'. unsubscribe_ticker s' ticker) xs s)) =
     set (rooms s) - roomName ` {t. JStr t \<in> set xs \<and> t \<noteq> []}"
  by (induction xs arbitrary: s) (auto simp: rooms_unsubscribe_ticker)

lemma subscribed_handleUnsubscription:
  "set (subscribedTickers (handleUnsubscription s p)) =
     set (subscribedTickers s) - {t. JStr t \<in> set (ensure_array p) \<and> t \<noteq> []}"
  by (auto simp: handleUnsubscription_def Let_def emit_def subscribed_fold_unsubscribe)

lemma rooms_handleUnsubscription:
  "set (rooms (handleUnsubscription s p)) =
     set (rooms s) - roomName ` {t. JStr t \<in> set (ensure_array p) \<and> t \<noteq> []}"
  by (auto simp: handleUnsubscription_def Let_def emit_def rooms_fold_unsubscribe)

lemma subscribed_handleSubscription:
  "set (subscribedTickers (handleSubscription s p)) =
     set (subscribedTickers s) \<union> {t. JStr t \<in> set (ensure_array p) \<and> t \<noteq> []}"
  by (auto simp: handleSubscription_def Let_def emit_def subscribed_fold_subscribe)

lemma rooms_handleSubscription:
  "set (rooms (handleSubscription s p)) =
     set (rooms s) \<union> roomName ` {t. JStr t \<in> set (ensure_array p) \<and> t \<noteq> []}"
  by (auto simp: handleSubscription_def Let_def emit_def rooms_fold_subscribe)

lemma roomName_inj: "roomName a = roomName b \<Longrightarrow> a = b"
  by (simp add: roomName_def)

text \<open>A connected socket is in the room of every symbol of its subscription set.\<close>

lemma connected_in_rooms:
  "connected s \<Longrightarrow> t \<in> set (subscribedTickers s) \<Longrightarrow> roomName t \<in> set (rooms s)"
proof (induction arbitrary: t rule: connected.induct)
  case (connection s)
  then show ?case by (simp add: on_connection_def emit_def)
next
  case (subscribe s p)
  then show ?case
    by (auto simp: subscribed_handleSubscription rooms_handleSubscription)
next
  case (unsubscribe s p)
  from unsubscribe.prems have "t \<in> set (subscribedTickers s)"
    and out: "\<not> (JStr t \<in> set (ensure_array p) \<and> t \<noteq> [])"
    by (simp_all add: subscribed_handleUnsubscription)
  then have "roomName t \<in> set (rooms s)"
    by (simp add: unsubscribe.IH)
  moreover from out have "roomName t \<notin> roomName ` {t. JStr t \<in> set (ensure_array p) \<and> t \<noteq> []}"
    by (auto dest: roomName_inj)
  ultimately show ?case
    by (simp add: rooms_handleUnsubscription)
next
  case (emitted s ev)
  then show ?case by (simp add: emit_def)
qed

text \<open>
  C8. When every symbol of a subscribe request is already in the subscription set of a
  connected socket, the request leaves the subscription set and the rooms as they are. Its
  acknowledgement is the one this request gets from any state, the first time included:
  the requested array.
\<close>

theorem subscribe_idempotent:
  assumes "connected s"
    and "\<forall>t. JStr t \<in> set (ensure_array p) \<and> t \<noteq> [] \<longrightarrow> t \<in> set (subscribedTickers s)"
  shows "subscribedTickers (handleSubscription s p) = subscribedTickers s
       \<and> rooms (handleSubscription s p) = rooms s
       \<and> outbox (handleSubscription s p)
           = outbox s @ (if ensure_array p = [] then [] else [Subscribed (ensure_array p)])
       \<and> (\<forall>s0. outbox (handleSubscription s0 p)
           = outbox s0 @ (if ensure_array p = [] then [] else [Subscribed (ensure_array p)]))"
proof -
  have "fold (\<lambda>ticker s'. subscribe_ticker s' ticker) (ensure_array p) s = s"
    by (rule fold_subscribe_noop) (simp add: assms connected_in_rooms)
  then show ?thesis
    by (simp add: handleSubscription_def Let_def emit_def outbox_fold_subscribe)
qed

theorem subscribe_idempotent_witness:
  "''AAPL'' \<in> set (subscribedTickers (handleSubscription (on_connection socket0) (PArray [JStr ''AAPL''])))
   \<and> handleSubscription (handleSubscription (on_connection socket0) (PArray [JStr ''AAPL'']))
         (PArray [JStr ''AAPL''])
       = socket0\<lparr>rooms := [''s1'', ''stock_AAPL''], subscribedTickers := [''AAPL''],
                  outbox := [Welcome ''s1'' (JNum 7), Subscribed [JStr ''AAPL''],
                             Subscribed [JStr ''AAPL'']]\<rparr>"
  using subscribe_idempotent [OF connected.subscribe [OF connected.connection],
      of "PArray [JStr ''AAPL'']" socket0 "PArray [JStr ''AAPL'']"]
  by (simp add: Let_def handleSubscription_def ensure_array_def subscribe_ticker_def join_def emit_def
      set_add_def roomName_def socket0_def on_connection_def)

section \<open>Objects and the adapter\<close>

lemma map_of_own_set: "map_of (own_set kvs k v) = (map_of kvs)(k \<mapsto> v)"
  by (induction kvs) (auto simp: fun_eq_iff)

lemma keys_own_set:
  "map fst (own_set kvs k v) = (if k \<in> fst ` set kvs then map fst kvs else map fst kvs @ [k])"
  by (induction kvs) force+

lemma dom_own_set: "fst ` set (own_set kvs k v) = insert k (fst ` set kvs)"
proof -
  have "fst ` set (own_set kvs k v) = set (map fst (own_set kvs k v))"
    by simp
  also have "\<dots> = insert k (fst ` set kvs)"
    unfolding keys_own_set by auto
  finally show ?thesis .
qed

lemma distinct_own_set: "distinct (map fst kvs) \<Longrightarrow> distinct (map fst (own_set kvs k v))"
  by (simp add: keys_own_set)

lemma set_own_set: "set (own_set kvs k v) \<subseteq> insert (k, v) (set kvs)"
  by (induction kvs) (auto split: if_splits)

lemma own_set_fresh: "k \<notin> fst ` set kvs \<Longrightarrow> own_set kvs k v = kvs @ [(k, v)]"
  by (induction kvs) auto

text \<open>The listing order is a rearrangement of the own properties.\<close>

lemma set_property_order: "set (property_order kvs) = set kvs"
  by (auto simp: property_order_def)

lemma distinct_property_order:
  "distinct (map fst kvs) \<Longrightarrow> distinct (map fst (property_order kvs))"
  by (auto simp: property_order_def distinct_map inj_on_def)

lemma set_object_keys: "set (object_keys ob) = fst ` set (own ob)"
  by (simp add: object_keys_def object_entries_def set_property_order)

lemma own_obj_set_keys: "fst ` set (own ob) \<subseteq> fst ` set (own (obj_set ob k v))"
  by (auto simp: obj_set_def dom_own_set)

lemma own_obj_set_key: "k \<noteq> ''__proto__'' \<Longrightarrow> k \<in> fst ` set (own (obj_set ob k v))"
  by (simp add: obj_set_def dom_own_set)

lemma results_wf_empty: "results_wf empty_object"
  by (simp add: results_wf_def empty_object_def)

lemma results_wf_own_set:
  assumes "results_wf results" and "d \<noteq> None \<longrightarrow> k \<noteq> []"
  shows "results_wf (results\<lparr>own := own_set (own results) k d\<rparr>)"
proof -
  have "set (own_set (own results) k d) \<subseteq> insert (k, d) (set (own results))"
    by (rule set_own_set)
  then have "\<And>k' d'. (k', d') \<in> set (own_set (own results) k d)
      \<Longrightarrow> (k', d') = (k, d) \<or> (k', d') \<in> set (own results)"
    by blast
  with assms show ?thesis
    unfolding results_wf_def by (fastforce simp: distinct_own_set)
qed

lemma results_wf_obj_set:
  assumes "results_wf results" and "d \<noteq> None \<longrightarrow> k \<noteq> []"
  shows "results_wf (obj_set results k d)"
proof (cases "k = ''__proto__'' \<and> proto results \<noteq> NullPrototype")
  case True
  with assms(1) show ?thesis by (simp add: obj_set_def results_wf_def)
next
  case False
  then have "obj_set results k d = results\<lparr>own := own_set (own results) k d\<rparr>"
    by (auto simp: obj_set_def)
  with results_wf_own_set[OF assms] show ?thesis by simp
qed

lemma results_wf_process_quote:
  "results_wf results \<Longrightarrow> results_wf (process_quote times_1000 results q)"
  by (auto simp: process_quote_def results_wf_obj_set split: option.splits)

lemma results_wf_fold_process:
  "results_wf results \<Longrightarrow>
   results_wf (fold (\<lambda>q results. process_quote times_1000 results q) qs results)"
  by (induction qs arbitrary: results) (simp_all add: results_wf_process_quote)

lemma results_wf_mark_missing:
  "results_wf results \<Longrightarrow> mark_missing results t = Inr results' \<Longrightarrow> results_wf results'"
  by (auto simp: mark_missing_def results_wf_obj_set split: sum.splits if_splits)

lemma results_wf_mark_all:
  "results_wf results \<Longrightarrow> results_wf (fst (mark_all results ts))"
proof (induction ts arbitrary: results)
  case Nil
  then show ?case by simp
next
  case (Cons t ts)
  show ?case
  proof (cases "mark_missing results t")
    case (Inl e)
    with Cons.prems show ?thesis by simp
  next
    case (Inr results')
    with Cons.prems have "results_wf results'"
      by (simp add: results_wf_mark_missing)
    with Inr Cons.IH show ?thesis by simp
  qed
qed

lemma results_wf_fold_null:
  "results_wf results \<Longrightarrow> results_wf (fold (\<lambda>ticker results. obj_set results ticker None) ts results)"
  by (induction ts arbitrary: results) (simp_all add: results_wf_obj_set)

lemma results_wf_try_block: "results_wf (fst (try_block times_1000 yahoo_quote tickers))"
  by (cases "yahoo_quote tickers")
    (simp_all add: try_block_def results_wf_empty results_wf_mark_all results_wf_fold_process)

lemma fetchStockData_wf:
  assumes "fetchStockData times_1000 yahoo_quote tickers = Inr results"
  shows "results_wf results"
proof (cases "tickers = []")
  case True
  with assms show ?thesis by (auto simp: fetchStockData_def results_wf_empty)
next
  case False
  obtain r out where tb: "try_block times_1000 yahoo_quote tickers = (r, out)"
    by (cases "try_block times_1000 yahoo_quote tickers")
  with results_wf_try_block[of times_1000 yahoo_quote tickers] have wf: "results_wf r"
    by simp
  show ?thesis
  proof (cases out)
    case (Inl e)
    with assms False tb have "results = fold (\<lambda>ticker results. obj_set results ticker None) tickers r"
      by (simp add: fetchStockData_def)
    with wf show ?thesis by (simp add: results_wf_fold_null)
  next
    case (Inr u)
    with assms False tb have "results = r"
      by (simp add: fetchStockData_def)
    with wf show ?thesis by simp
  qed
qed

text \<open>Keys of the requested tickers.\<close>

lemma keys_mark_missing:
  assumes "mark_missing results t = Inr results'"
  shows "fst ` set (own results) \<subseteq> fst ` set (own results')
       \<and> (t \<noteq> ''__proto__'' \<longrightarrow> t \<in> fst ` set (own results'))"
proof (cases "hasOwnProperty results t")
  case (Inl e)
  with assms show ?thesis by (simp add: mark_missing_def)
next
  case (Inr has)
  show ?thesis
  proof (cases has)
    case True
    with Inr assms have "results' = results" by (simp add: mark_missing_def)
    moreover from True Inr have "t \<in> fst ` set (own results)"
      by (auto simp: hasOwnProperty_def split: if_splits)
    ultimately show ?thesis by simp
  next
    case False
    with Inr assms have "results' = obj_set results t None" by (simp add: mark_missing_def)
    then show ?thesis
      using own_obj_set_keys[of results t None] own_obj_set_key[of t results None] by simp
  qed
qed

lemma keys_mark_all:
  assumes "mark_all results ts = (results', Inr u)" and "''__proto__'' \<notin> set ts"
  shows "set ts \<union> fst ` set (own results) \<subseteq> fst ` set (own results')"
  using assms
proof (induction ts arbitrary: results)
  case Nil
  then show ?case by simp
next
  case (Cons t ts)
  show ?case
  proof (cases "mark_missing results t")
    case (Inl e)
    with Cons.prems show ?thesis by simp
  next
    case (Inr r1)
    with Cons.prems have rest: "mark_all r1 ts = (results', Inr u)" and "''__proto__'' \<notin> set ts"
      and t: "t \<noteq> ''__proto__''"
      by auto
    then have "set ts \<union> fst ` set (own r1) \<subseteq> fst ` set (own results')"
      by (intro Cons.IH)
    then have a: "set ts \<subseteq> fst ` set (own results')"
      and b: "fst ` set (own r1) \<subseteq> fst ` set (own results')"
      by blast+
    from keys_mark_missing[OF Inr] t
    have c: "fst ` set (own results) \<subseteq> fst ` set (own r1)" and d: "t \<in> fst ` set (own r1)"
      by simp_all
    from b d have "t \<in> fst ` set (own results')" by blast
    moreover from b c have "fst ` set (own results) \<subseteq> fst ` set (own results')" by blast
    ultimately show ?thesis using a unfolding list.set by blast
  qed
qed

lemma fold_null_own:
  "''__proto__'' \<notin> set ts \<Longrightarrow>
   fold (\<lambda>ticker results. obj_set results ticker None) ts results
     = results\<lparr>own := fold (\<lambda>ticker props. own_set props ticker None) ts (own results)\<rparr>"
proof (induction ts arbitrary: results)
  case Nil
  show ?case by simp
next
  case (Cons t ts)
  then have t: "t \<noteq> ''__proto__''" and rest: "''__proto__'' \<notin> set ts"
    by auto
  from t have "obj_set results t None = results\<lparr>own := own_set (own results) t None\<rparr>"
    by (simp add: obj_set_def)
  with Cons.IH[OF rest, of "results\<lparr>own := own_set (own results) t None\<rparr>"]
  show ?case by simp
qed

lemma keys_fold_own_null:
  "fst ` set (fold (\<lambda>ticker props. own_set props ticker None) ts props) = set ts \<union> fst ` set props"
  by (induction ts arbitrary: props) (simp_all add: dom_own_set)

lemma map_of_fold_own_null:
  "map_of (fold (\<lambda>ticker props. own_set props ticker None) ts props) k
     = (if k \<in> set ts then Some None else map_of props k)"
  by (induction ts arbitrary: props) (auto simp: map_of_own_set)

text \<open>
  C4. For a non-empty list of requested symbols, none of them the name \<open>__proto__\<close>
  (which is no symbol: a symbol is upper-case), the adapter returns (it does not throw)
  an object in which every requested symbol is a key. When the upstream call fails as a
  whole, the object's keys are exactly the requested symbols and each is mapped to
  \<open>null\<close>.
\<close>

theorem fetchStockData_total:
  assumes "tickers \<noteq> []" and "''__proto__'' \<notin> set tickers"
  shows "\<exists>results. fetchStockData times_1000 yahoo_quote tickers = Inr results
           \<and> set tickers \<subseteq> set (object_keys results)
           \<and> ((\<exists>e. yahoo_quote tickers = Inl e)
                \<longrightarrow> set (object_keys results) = set tickers
                    \<and> (\<forall>t \<in> set tickers. obj_get results t = Own None))"
proof -
  obtain r out where tb: "try_block times_1000 yahoo_quote tickers = (r, out)"
    by (cases "try_block times_1000 yahoo_quote tickers")
  show ?thesis
  proof (cases out)
    case (Inr u)
    with tb assms(1) have res: "fetchStockData times_1000 yahoo_quote tickers = Inr r"
      by (simp add: fetchStockData_def)
    from tb Inr obtain reply where reply: "yahoo_quote tickers = Inr reply"
      and ma: "mark_all (fold (\<lambda>q results. process_quote times_1000 results q)
                          (quotesArray reply) empty_object) tickers = (r, Inr u)"
      by (cases "yahoo_quote tickers") (auto simp: try_block_def)
    from keys_mark_all[OF ma assms(2)] have "set tickers \<subseteq> fst ` set (own r)"
      by simp
    with res reply show ?thesis
      by (simp add: set_object_keys)
  next
    case (Inl e)
    let ?r' = "fold (\<lambda>ticker results. obj_set results ticker None) tickers r"
    from tb Inl assms(1) have res: "fetchStockData times_1000 yahoo_quote tickers = Inr ?r'"
      by (simp add: fetchStockData_def)
    have own: "own ?r' = fold (\<lambda>ticker props. own_set props ticker None) tickers (own r)"
      by (simp add: fold_null_own[OF assms(2)])
    have dom: "fst ` set (own ?r') = set tickers \<union> fst ` set (own r)"
      by (simp add: own keys_fold_own_null)
    have null: "obj_get ?r' t = Own None" if "t \<in> set tickers" for t
      using that by (simp add: obj_get_def own map_of_fold_own_null)
    from dom have keys: "set tickers \<subseteq> set (object_keys ?r')"
      by (simp add: set_object_keys)
    have "set (object_keys ?r') = set tickers \<and> (\<forall>t \<in> set tickers. obj_get ?r' t = Own None)"
      if "yahoo_quote tickers = Inl e'" for e'
    proof -
      from that tb have "own r = []"
        by (auto simp add: try_block_def empty_object_def)
      with dom null show ?thesis
        by (simp add: set_object_keys)
    qed
    with res keys show ?thesis by blast
  qed
qed

lemma fetch_example:
  "fetchStockData times0 yahoo0 [''AAPL'', ''MSFT''] = Inr results0"
  by (simp add: fetchStockData_def try_block_def yahoo0_def quotesArray_def process_quote_def
      raw_aapl_def quote0_def timestampObj_def mark_missing_def hasOwnProperty_def obj_set_def
      empty_object_def results0_def)

theorem fetchStockData_total_witness:
  "fetchStockData times0 yahoo_down [''AAPL'', ''MSFT'']
     = Inr \<lparr>own = [(''AAPL'', None), (''MSFT'', None)], proto = ObjectPrototype\<rparr>
   \<and> set (object_keys \<lparr>own = [(''AAPL'', None), (''MSFT'', None)], proto = ObjectPrototype\<rparr>)
     = {''AAPL'', ''MSFT''}
   \<and> obj_get \<lparr>own = [(''AAPL'', None), (''MSFT'', None)], proto = ObjectPrototype\<rparr> ''MSFT''
     = Own None"
proof -
  have ev: "fetchStockData times0 yahoo_down [''AAPL'', ''MSFT'']
     = Inr \<lparr>own = [(''AAPL'', None), (''MSFT'', None)], proto = ObjectPrototype\<rparr>"
    by (simp add: fetchStockData_def try_block_def yahoo_down_def obj_set_def empty_object_def)
  have h1: "[''AAPL'', ''MSFT''] \<noteq> []" and h2: "''__proto__'' \<notin> set [''AAPL'', ''MSFT'']"
    and h3: "\<exists>e. yahoo_down [''AAPL'', ''MSFT''] = Inl e"
    by (simp_all add: yahoo_down_def)
  from fetchStockData_total [OF h1 h2, of times0 yahoo_down] h3 ev
  show ?thesis by auto
qed

text \<open>
  The name \<open>__proto__\<close> itself gets no key: requested alone while the upstream is down,
  it leaves an object with no property and no prototype.
\<close>

lemma fetch_reserved_name_example:
  "fetchStockData times0 yahoo_down [''__proto__''] = Inr \<lparr>own = [], proto = NullPrototype\<rparr>"
  by (simp add: fetchStockData_def try_block_def yahoo_down_def obj_set_def empty_object_def)

section \<open>The cache pipeline and the tick\<close>

lemma fold_own_set_distinct:
  "distinct (map fst (acc @ kvs)) \<Longrightarrow> fold (\<lambda>(k, v) props. own_set props k v) kvs acc = acc @ kvs"
proof (induction kvs arbitrary: acc)
  case Nil
  show ?case by simp
next
  case (Cons kv kvs)
  obtain k v where kv: "kv = (k, v)" by (cases kv)
  from Cons.prems kv have fresh: "k \<notin> fst ` set acc" by auto
  from Cons.prems kv have "distinct (map fst ((acc @ [(k, v)]) @ kvs))" by simp
  then have "fold (\<lambda>(k, v) props. own_set props k v) kvs (acc @ [(k, v)]) = (acc @ [(k, v)]) @ kvs"
    by (rule Cons.IH)
  with fresh kv show ?case by (simp add: own_set_fresh)
qed

lemma own_fromEntries: "distinct (map fst kvs) \<Longrightarrow> own (object_fromEntries kvs) = kvs"
  using fold_own_set_distinct[of "[]" kvs] by (simp add: object_fromEntries_def)

lemma distinct_keys_filter: "distinct (map fst xs) \<Longrightarrow> distinct (map fst (filter P xs))"
  by (induction xs) auto

lemma entries_pipeline_stock:
  "distinct (map fst kvs) \<Longrightarrow> key = ''stock:'' @ t \<Longrightarrow>
   entries (fold (\<lambda>cmd r'. redis_set r' now cmd) (pipeline_loop str kvs) r) key
     = (case map_of kvs t of
          Some (Some q) \<Rightarrow> Some (str q, now + CACHE_EXPIRY_SECONDS)
        | _ \<Rightarrow> entries r key)"
proof (induction kvs arbitrary: r)
  case Nil
  show ?case by simp
next
  case (Cons x kvs)
  obtain t0 d0 where x: "x = (t0, d0)" by (cases x)
  define r1 where "r1 = (case d0 of None \<Rightarrow> r
     | Some q \<Rightarrow> redis_set r now (''stock:'' @ t0, str q, CACHE_EXPIRY_SECONDS))"
  have split: "fold (\<lambda>cmd r'. redis_set r' now cmd) (pipeline_loop str (x # kvs)) r
      = fold (\<lambda>cmd r'. redis_set r' now cmd) (pipeline_loop str kvs) r1"
    by (cases d0) (simp_all add: x r1_def)
  from Cons.prems have d: "distinct (map fst kvs)" by simp
  have ih: "entries (fold (\<lambda>cmd r'. redis_set r' now cmd) (pipeline_loop str kvs) r1) key
     = (case map_of kvs t of
          Some (Some q) \<Rightarrow> Some (str q, now + CACHE_EXPIRY_SECONDS)
        | _ \<Rightarrow> entries r1 key)"
    by (rule Cons.IH[OF d Cons.prems(2)])
  have r1: "entries r1 key
      = (if t = t0 then (case d0 of Some q \<Rightarrow> Some (str q, now + CACHE_EXPIRY_SECONDS)
                                  | None \<Rightarrow> entries r key)
         else entries r key)"
    using Cons.prems(2) by (auto simp: r1_def redis_set_def split: option.splits)
  show ?case
  proof (cases "t = t0")
    case True
    with Cons.prems x have "map_of kvs t = None" by (simp add: map_of_eq_None_iff)
    with True x r1 ih show ?thesis unfolding split by (simp split: option.splits)
  next
    case False
    with x r1 ih show ?thesis unfolding split by (simp split: option.splits)
  qed
qed

lemma entries_pipeline_other:
  "k \<notin> (\<lambda>t. ''stock:'' @ t) ` {t. \<exists>q. (t, Some q) \<in> set kvs} \<Longrightarrow>
   entries (fold (\<lambda>cmd r'. redis_set r' now cmd) (pipeline_loop str kvs) r) k = entries r k"
proof (induction kvs arbitrary: r)
  case Nil
  show ?case by simp
next
  case (Cons x kvs)
  obtain t0 d0 where x: "x = (t0, d0)" by (cases x)
  define r1 where "r1 = (case d0 of None \<Rightarrow> r
     | Some q \<Rightarrow> redis_set r now (''stock:'' @ t0, str q, CACHE_EXPIRY_SECONDS))"
  have split: "fold (\<lambda>cmd r'. redis_set r' now cmd) (pipeline_loop str (x # kvs)) r
      = fold (\<lambda>cmd r'. redis_set r' now cmd) (pipeline_loop str kvs) r1"
    by (cases d0) (simp_all add: x r1_def)
  from Cons.prems have "k \<notin> (\<lambda>t. ''stock:'' @ t) ` {t. \<exists>q. (t, Some q) \<in> set kvs}"
    by auto
  then have ih: "entries (fold (\<lambda>cmd r'. redis_set r' now cmd) (pipeline_loop str kvs) r1) k = entries r1 k"
    by (rule Cons.IH)
  from Cons.prems x have "d0 \<noteq> None \<Longrightarrow> k \<noteq> ''stock:'' @ t0"
    by auto
  then have "entries r1 k = entries r k"
    by (cases d0) (auto simp: r1_def redis_set_def)
  with ih show ?case unfolding split by simp
qed

lemma available_pipeline:
  "available (fold (\<lambda>cmd r'. redis_set r' now cmd) cmds r) = available r"
  by (induction cmds arbitrary: r) (simp_all add: redis_set_def split: prod.splits)

lemma cacheStockUpdates_unfold:
  "cacheStockUpdates str r now sd =
     (if available r then fold (\<lambda>cmd r'. redis_set r' now cmd) (pipeline_of str sd) r else r, Inr ())"
proof (cases "pipeline_of str sd = []")
  case True
  then show ?thesis
    by (simp add: cacheStockUpdates_def Let_def)
next
  case False
  then have "object_entries sd \<noteq> []" by (auto simp: pipeline_of_def)
  with False show ?thesis
    by (simp add: cacheStockUpdates_def Let_def object_keys_def redis_exec_def try_catch_def)
qed

lemma deliver_Nil: "deliver [] s = s"
  by (simp add: deliver_def)

lemma deliver_Cons_skip: "d = None \<Longrightarrow> deliver ((t, d) # kvs) s = deliver kvs s"
  by (simp add: deliver_def)

lemma room_updates_rooms: "rooms s' = rooms s \<Longrightarrow> room_updates s' kvs = room_updates s kvs"
  by (induction kvs) auto

lemma deliver_Cons:
  "d \<noteq> None \<Longrightarrow>
   deliver ((t, d) # kvs) s
     = deliver kvs (if roomName t \<in> set (rooms s) then emit s (StockUpdate t d) else s)"
  by (simp add: deliver_def emit_def room_updates_rooms[of "s\<lparr>outbox := outbox s @ [StockUpdate t d]\<rparr>" s])

lemma fold_broadcast:
  assumes "\<forall>(k, d) \<in> set kvs. d \<noteq> None \<longrightarrow> k \<noteq> []"
  shows "fold (\<lambda>(ticker, data) io'. broadcastStockUpdate io' (JStr ticker) data)
           (filter (\<lambda>(_, data). data \<noteq> None) kvs) (Some sockets)
         = Some (map (deliver kvs) sockets)"
  using assms
proof (induction kvs arbitrary: sockets)
  case Nil
  show ?case by (simp add: deliver_Nil)
next
  case (Cons x kvs)
  obtain t d where x: "x = (t, d)" by (cases x)
  from Cons.prems have rest: "\<forall>(k, d) \<in> set kvs. d \<noteq> None \<longrightarrow> k \<noteq> []" by simp
  show ?case
  proof (cases "d = None")
    case True
    with x Cons.IH[OF rest, of sockets] show ?thesis
      by (simp add: deliver_Cons_skip)
  next
    case False
    with Cons.prems x have t: "t \<noteq> []" by auto
    have step: "broadcastStockUpdate (Some sockets) (JStr t) d
        = Some (to_room_emit sockets (roomName t) (StockUpdate t d))"
      using t by (simp add: broadcastStockUpdate_def)
    have "map (deliver kvs) (to_room_emit sockets (roomName t) (StockUpdate t d))
        = map (deliver ((t, d) # kvs)) sockets"
      using False by (simp add: to_room_emit_def deliver_Cons)
    with False x step Cons.IH[OF rest, of "to_room_emit sockets (roomName t) (StockUpdate t d)"]
    show ?thesis by simp
  qed
qed

lemma deliver_entries:
  "deliver (object_entries results) = (\<lambda>s. s\<lparr>outbox := outbox s @ updates_for s results\<rparr>)"
  by (simp add: deliver_def updates_for_def fun_eq_iff)

lemma tick_unfold:
  assumes "getMasterTickerList findMany = Inr tickers" and "tickers \<noteq> []"
    and "fetchStockData times_1000 yahoo_quote tickers = Inr results"
  shows "runPeriodicFetch findMany times_1000 yahoo_quote str now w =
     (if filter (\<lambda>(_, data). data \<noteq> None) (object_entries results) = [] then w
      else \<lparr>redis = fst (cacheStockUpdates str (redis w) now
                           (object_fromEntries (filter (\<lambda>(_, data). data \<noteq> None) (object_entries results)))),
            io = fold (\<lambda>(ticker, data) io'. broadcastStockUpdate io' (JStr ticker) data)
                   (filter (\<lambda>(_, data). data \<noteq> None) (object_entries results)) (io w)\<rparr>,
      Inr ())"
proof -
  let ?valid = "filter (\<lambda>(_, data). data \<noteq> None) (object_entries results)"
  have "object_entries results = [] \<Longrightarrow> ?valid = []" by simp
  then show ?thesis
    using assms(1,2,3)
    by (auto simp: runPeriodicFetch_def Let_def object_keys_def cacheStockUpdates_unfold
        simp del: not_None_eq)
qed

lemma room_updates_none:
  "filter (\<lambda>(_, data). data \<noteq> None) kvs = [] \<Longrightarrow> room_updates s kvs = []"
  by (induction kvs) (auto split: if_splits)

lemma deliver_none:
  assumes "filter (\<lambda>(_, data). data \<noteq> None) kvs = []"
  shows "map (deliver kvs) sockets = sockets"
proof -
  have "deliver kvs s = s" for s
    unfolding deliver_def room_updates_none[OF assms] by simp
  then show ?thesis by (simp add: map_idI)
qed

lemma results_wf_entries:
  assumes "results_wf results"
  shows "distinct (map fst (object_entries results))"
    and "\<forall>(k, d) \<in> set (object_entries results). d \<noteq> None \<longrightarrow> k \<noteq> []"
    and "map_of (object_entries results) = map_of (own results)"
proof -
  from assms have d: "distinct (map fst (own results))"
    by (simp add: results_wf_def)
  then show d': "distinct (map fst (object_entries results))"
    unfolding object_entries_def by (rule distinct_property_order)
  from assms show "\<forall>(k, d) \<in> set (object_entries results). d \<noteq> None \<longrightarrow> k \<noteq> []"
    by (simp add: results_wf_def object_entries_def set_property_order)
  have "set (object_entries results) = set (own results)"
    by (simp add: object_entries_def set_property_order)
  with d d' show "map_of (object_entries results) = map_of (own results)"
    by (simp add: map_of_inject_set)
qed

lemma tick_publish:
  assumes "getMasterTickerList findMany = Inr tickers" and "tickers \<noteq> []"
    and "fetchStockData times_1000 yahoo_quote tickers = Inr results" and "io w = Some sockets"
  shows "runPeriodicFetch findMany times_1000 yahoo_quote str now w =
     (\<lparr>redis = fst (cacheStockUpdates str (redis w) now
                      (object_fromEntries (filter (\<lambda>(_, data). data \<noteq> None) (object_entries results)))),
       io = Some (map (deliver (object_entries results)) sockets)\<rparr>, Inr ())"
proof -
  let ?valid = "filter (\<lambda>(_, data). data \<noteq> None) (object_entries results)"
  have wf: "results_wf results"
    using assms(3) by (rule fetchStockData_wf)
  then have ne: "\<forall>(k, d) \<in> set (object_entries results). d \<noteq> None \<longrightarrow> k \<noteq> []"
    by (rule results_wf_entries)
  show ?thesis
  proof (cases "?valid = []")
    case True
    have c: "cacheStockUpdates str (redis w) now (object_fromEntries []) = (redis w, Inr ())"
      by (simp add: cacheStockUpdates_def object_keys_def object_entries_def object_fromEntries_def
          property_order_def)
    show ?thesis
      unfolding tick_unfold[OF assms(1,2,3)] deliver_none[OF True] True c
      using assms(4) by simp
  next
    case False
    show ?thesis
      unfolding tick_unfold[OF assms(1,2,3)] assms(4) fold_broadcast[OF ne]
      using False by (simp del: not_None_eq)
  qed
qed

lemma map_of_valid_distinct:
  assumes "distinct (map fst kvs)"
  shows "map_of (filter (\<lambda>(_, data). data \<noteq> None) kvs) t
           = (case map_of kvs t of Some (Some q) \<Rightarrow> Some (Some q) | _ \<Rightarrow> None)"
  using assms
proof (induction kvs)
  case Nil
  show ?case by simp
next
  case (Cons x kvs)
  obtain t0 d0 where x: "x = (t0, d0)" by (cases x)
  from Cons.prems x have fresh: "t0 \<notin> fst ` set kvs" by simp
  then have none: "map_of kvs t0 = None"
    by (simp add: map_of_eq_None_iff)
  from fresh have none': "map_of (filter (\<lambda>(_, data). data \<noteq> None) kvs) t0 = None"
    by (auto simp: map_of_eq_None_iff)
  from Cons.prems have "distinct (map fst kvs)" by simp
  then have ih: "map_of (filter (\<lambda>(_, data). data \<noteq> None) kvs) t
      = (case map_of kvs t of Some (Some q) \<Rightarrow> Some (Some q) | _ \<Rightarrow> None)"
    by (rule Cons.IH)
  show ?case
  proof (cases "t = t0")
    case True
    with x none none' show ?thesis by (cases d0) simp_all
  next
    case False
    with x ih show ?thesis by (cases d0) simp_all
  qed
qed

text \<open>What the tick hands to the cache: the non-null entries, listed in property order.\<close>

lemma entries_dataToCache:
  assumes "results_wf results"
  shows "distinct (map fst (object_entries (object_fromEntries
            (filter (\<lambda>(_, data). data \<noteq> None) (object_entries results)))))"
    and "set (object_entries (object_fromEntries
            (filter (\<lambda>(_, data). data \<noteq> None) (object_entries results))))
          = {(t, d). (t, d) \<in> set (own results) \<and> d \<noteq> None}"
    and "map_of (object_entries (object_fromEntries
            (filter (\<lambda>(_, data). data \<noteq> None) (object_entries results)))) t
          = (case map_of (own results) t of Some (Some q) \<Rightarrow> Some (Some q) | _ \<Rightarrow> None)"
proof -
  let ?valid = "filter (\<lambda>(_, data). data \<noteq> None) (object_entries results)"
  let ?cached = "object_entries (object_fromEntries ?valid)"
  have d: "distinct (map fst ?valid)"
    using results_wf_entries(1)[OF assms] by (rule distinct_keys_filter)
  then have own: "own (object_fromEntries ?valid) = ?valid"
    by (rule own_fromEntries)
  then have c: "?cached = property_order ?valid"
    by (simp add: object_entries_def)
  from d show d': "distinct (map fst ?cached)"
    unfolding c by (rule distinct_property_order)
  have s: "set ?cached = set ?valid"
    unfolding c by (rule set_property_order)
  have "set ?valid = {(t, d). (t, d) \<in> set (own results) \<and> d \<noteq> None}"
    by (auto simp: object_entries_def set_property_order)
  with s show "set ?cached = {(t, d). (t, d) \<in> set (own results) \<and> d \<noteq> None}"
    by simp
  from d d' s have "map_of ?cached = map_of ?valid"
    by (simp add: map_of_inject_set)
  then show "map_of ?cached t
      = (case map_of (own results) t of Some (Some q) \<Rightarrow> Some (Some q) | _ \<Rightarrow> None)"
    using map_of_valid_distinct[OF results_wf_entries(1)[OF assms], of t]
      results_wf_entries(3)[OF assms]
    by simp
qed

lemma obj_get_own:
  "(case obj_get results t of Own (Some q) \<Rightarrow> f q | _ \<Rightarrow> g)
     = (case map_of (own results) t of Some (Some q) \<Rightarrow> f q | _ \<Rightarrow> g)"
  by (simp add: obj_get_def split: option.splits)

lemma cached_after_tick:
  assumes "results_wf results" and "available r"
  shows "entries (fst (cacheStockUpdates str r now
                    (object_fromEntries (filter (\<lambda>(_, data). data \<noteq> None) (object_entries results)))))
           (''stock:'' @ t)
     = (case obj_get results t of
          Own (Some q) \<Rightarrow> Some (str q, now + CACHE_EXPIRY_SECONDS)
        | _ \<Rightarrow> entries r (''stock:'' @ t))"
proof -
  let ?cached = "object_entries (object_fromEntries
      (filter (\<lambda>(_, data). data \<noteq> None) (object_entries results)))"
  have b: "entries (fold (\<lambda>cmd r'. redis_set r' now cmd) (pipeline_loop str ?cached) r) (''stock:'' @ t)
      = (case map_of ?cached t of
           Some (Some q) \<Rightarrow> Some (str q, now + CACHE_EXPIRY_SECONDS)
         | _ \<Rightarrow> entries r (''stock:'' @ t))"
    by (rule entries_pipeline_stock[OF entries_dataToCache(1)[OF assms(1)] refl])
  show ?thesis
    unfolding cacheStockUpdates_unfold pipeline_of_def obj_get_own
    using assms(2) b entries_dataToCache(3)[OF assms(1), of t]
    by (simp split: option.splits)
qed

lemma cached_after_tick_other:
  assumes "results_wf results"
    and "k \<notin> (\<lambda>t. ''stock:'' @ t) ` {t. \<exists>q. obj_get results t = Own (Some q)}"
  shows "entries (fst (cacheStockUpdates str r now
                    (object_fromEntries (filter (\<lambda>(_, data). data \<noteq> None) (object_entries results))))) k
     = entries r k"
proof -
  let ?cached = "object_entries (object_fromEntries
      (filter (\<lambda>(_, data). data \<noteq> None) (object_entries results)))"
  from assms(1) have "distinct (map fst (own results))" by (simp add: results_wf_def)
  then have "\<And>t q. (t, Some q) \<in> set (own results) \<Longrightarrow> map_of (own results) t = Some (Some q)"
    by simp
  then have "\<And>t q. (t, Some q) \<in> set (own results) \<Longrightarrow> obj_get results t = Own (Some q)"
    by (simp add: obj_get_def)
  with assms(2) have "k \<notin> (\<lambda>t. ''stock:'' @ t) ` {t. \<exists>q. (t, Some q) \<in> set ?cached}"
    unfolding entries_dataToCache(2)[OF assms(1)] by auto
  then have "entries (fold (\<lambda>cmd r'. redis_set r' now cmd) (pipeline_loop str ?cached) r) k = entries r k"
    by (rule entries_pipeline_other)
  then show ?thesis
    unfolding cacheStockUpdates_unfold pipeline_of_def by simp
qed

lemma cache_down:
  "\<not> available r \<Longrightarrow> cacheStockUpdates str r now sd = (r, Inr ())"
  by (simp add: cacheStockUpdates_unfold)

text \<open>The example tick: \<open>AAPL\<close> has a quote and \<open>MSFT\<close> has none.\<close>

lemma order_example:
  "property_order [(''AAPL'', a), (''MSFT'', b)] = [(''AAPL'', a), (''MSFT'', b)]"
  "property_order [(''AAPL'', a)] = [(''AAPL'', a)]"
  by (simp_all add: property_order_def is_array_index_def is_digit_def)

lemma tick_example:
  "runPeriodicFetch (Inr [''AAPL'', ''MSFT'']) times0 yahoo0 stringify0 1000 \<lparr>redis = r, io = Some [socket1]\<rparr>
     = (\<lparr>redis = (if available r
                   then r\<lparr>entries := (entries r)(''stock:AAPL'' \<mapsto> (''quote:AAPL'', 1300))\<rparr>
                   else r),
         io = Some [socket1\<lparr>outbox := [StockUpdate ''AAPL'' (Some quote0)]\<rparr>]\<rparr>, Inr ())"
  by (simp add: fetch_example results0_def runPeriodicFetch_def getMasterTickerList_def try_catch_def
      set_add_def object_keys_def object_entries_def object_fromEntries_def order_example
      cacheStockUpdates_def pipeline_of_def redis_exec_def redis_set_def CACHE_EXPIRY_SECONDS_def
      broadcastStockUpdate_def to_room_emit_def roomName_def emit_def socket1_def socket0_def
      stringify0_def quote0_def Let_def)

text \<open>
  C3, as the code has it. A tick whose master set is not empty, on the adapter results
  \<open>results\<close>, ends without an exception (the Socket.IO server is up: \<open>server.js\<close> initialises it before
  it starts the timer). Every connected socket receives, in the order in which the results
  are listed, one \<open>stock_update\<close> for each symbol that has a non-null quote and whose
  room the socket is in, and nothing else. When the store accepts the write, the cache holds
  afterwards, under \<open>stock:<symbol>\<close>, the text of the quote of each symbol that has a
  non-null quote, with expiry \<open>now + 300\<close>, and every other key is as it was. When the
  store does not accept the write, the cache is as it was.
\<close>

theorem tick_partitions_results:
  assumes "getMasterTickerList findMany = Inr tickers" and "tickers \<noteq> []"
    and "fetchStockData times_1000 yahoo_quote tickers = Inr results" and "io w = Some sockets"
  shows "\<exists>w'. runPeriodicFetch findMany times_1000 yahoo_quote json_stringify now w = (w', Inr ())
     \<and> io w' = Some (map (\<lambda>s. s\<lparr>outbox := outbox s @ updates_for s results\<rparr>) sockets)
     \<and> (available (redis w) \<longrightarrow>
          (\<forall>t. entries (redis w') (''stock:'' @ t)
                 = (case obj_get results t of
                      Own (Some q) \<Rightarrow> Some (json_stringify q, now + CACHE_EXPIRY_SECONDS)
                    | _ \<Rightarrow> entries (redis w) (''stock:'' @ t)))
        \<and> (\<forall>k. k \<notin> (\<lambda>t. ''stock:'' @ t) ` {t. \<exists>q. obj_get results t = Own (Some q)}
                 \<longrightarrow> entries (redis w') k = entries (redis w) k))
     \<and> (\<not> available (redis w) \<longrightarrow> redis w' = redis w)"
proof -
  let ?cache = "cacheStockUpdates json_stringify (redis w) now
      (object_fromEntries (filter (\<lambda>(_, data). data \<noteq> None) (object_entries results)))"
  have wf: "results_wf results"
    using assms(3) by (rule fetchStockData_wf)
  have c1: "available (redis w) \<Longrightarrow>
      entries (fst ?cache) (''stock:'' @ t)
        = (case obj_get results t of
             Own (Some q) \<Rightarrow> Some (json_stringify q, now + CACHE_EXPIRY_SECONDS)
           | _ \<Rightarrow> entries (redis w) (''stock:'' @ t))" for t
    by (rule cached_after_tick[OF wf])
  have c2: "k \<notin> (\<lambda>t. ''stock:'' @ t) ` {t. \<exists>q. obj_get results t = Own (Some q)} \<Longrightarrow>
      entries (fst ?cache) k = entries (redis w) k" for k
    by (rule cached_after_tick_other[OF wf])
  have c3: "\<not> available (redis w) \<Longrightarrow> fst ?cache = redis w"
    by (simp add: cache_down)
  show ?thesis
    unfolding tick_publish[OF assms] deliver_entries
    using c1 c2 c3 by (simp del: not_None_eq)
qed

theorem tick_partitions_results_witness:
  "fetchStockData times0 yahoo0 [''AAPL'', ''MSFT'']
     = Inr \<lparr>own = [(''AAPL'', Some quote0), (''MSFT'', None)], proto = ObjectPrototype\<rparr>
   \<and> runPeriodicFetch (Inr [''AAPL'', ''MSFT'']) times0 yahoo0 stringify0 1000 world0
       = (\<lparr>redis = \<lparr>entries = [''stock:AAPL'' \<mapsto> (''quote:AAPL'', 1300)], available = True\<rparr>,
            io = Some [socket1\<lparr>outbox := [StockUpdate ''AAPL'' (Some quote0)]\<rparr>]\<rparr>, Inr ())"
  using tick_partitions_results [of "Inr [''AAPL'', ''MSFT'']" "[''AAPL'', ''MSFT'']" times0 yahoo0
      results0 world0 "[socket1]" stringify0 1000]
  by (simp add: fetch_example tick_example world0_def redis0_def results0_def)

text \<open>
  C3 as stated fails: with the store down, the tick on \<open>AAPL\<close> (a quote) and
  \<open>MSFT\<close> (\<open>null\<close>) publishes the quote of \<open>AAPL\<close> and caches nothing, so that
  \<open>stock:AAPL\<close> is still absent afterwards.
\<close>

theorem tick_cache_counterexample:
  "fetchStockData times0 yahoo0 [''AAPL'', ''MSFT'']
     = Inr \<lparr>own = [(''AAPL'', Some quote0), (''MSFT'', None)], proto = ObjectPrototype\<rparr>
   \<and> io (fst (runPeriodicFetch (Inr [''AAPL'', ''MSFT'']) times0 yahoo0 stringify0 1000
               (world0\<lparr>redis := redis0\<lparr>available := False\<rparr>\<rparr>)))
       = Some [socket1\<lparr>outbox := [StockUpdate ''AAPL'' (Some quote0)]\<rparr>]
   \<and> entries (redis (fst (runPeriodicFetch (Inr [''AAPL'', ''MSFT'']) times0 yahoo0 stringify0 1000
                            (world0\<lparr>redis := redis0\<lparr>available := False\<rparr>\<rparr>))))
        ''stock:AAPL'' = None"
  by (simp add: fetch_example tick_example world0_def redis0_def results0_def)

section \<open>Soft failures\<close>

text \<open>
  C6. When the store is unreachable during a tick, the rejected pipeline is caught inside
  \<open>cacheStockUpdates\<close>, which returns normally whatever it was given, and the tick goes
  on to publish: every connected socket still receives the update of each symbol that has
  a non-null quote and whose room it is in, and the tick ends without an exception. The
  cache is left as it was.
\<close>

theorem cache_failure_keeps_publishing:
  assumes "getMasterTickerList findMany = Inr tickers" and "tickers \<noteq> []"
    and "fetchStockData times_1000 yahoo_quote tickers = Inr results" and "io w = Some sockets"
    and "\<not> available (redis w)"
  shows "snd (cacheStockUpdates json_stringify (redis w) now stockData) = Inr ()
       \<and> runPeriodicFetch findMany times_1000 yahoo_quote json_stringify now w
           = (w\<lparr>io := Some (map (\<lambda>s. s\<lparr>outbox := outbox s @ updates_for s results\<rparr>) sockets)\<rparr>,
              Inr ())"
proof -
  have c: "fst (cacheStockUpdates json_stringify (redis w) now sd) = redis w" for sd
    using assms(5) by (simp add: cache_down)
  show ?thesis
    unfolding tick_publish[OF assms(1-4)] deliver_entries c
    by (simp add: cacheStockUpdates_unfold)
qed

theorem cache_failure_keeps_publishing_witness:
  "cacheStockUpdates stringify0 (redis0\<lparr>available := False\<rparr>) 1000
       \<lparr>own = [(''AAPL'', Some quote0)], proto = ObjectPrototype\<rparr>
     = (redis0\<lparr>available := False\<rparr>, Inr ())
   \<and> runPeriodicFetch (Inr [''AAPL'', ''MSFT'']) times0 yahoo0 stringify0 1000
         (world0\<lparr>redis := redis0\<lparr>available := False\<rparr>\<rparr>)
       = (\<lparr>redis = redis0\<lparr>available := False\<rparr>,
            io = Some [socket1\<lparr>outbox := [StockUpdate ''AAPL'' (Some quote0)]\<rparr>]\<rparr>, Inr ())"
  using cache_failure_keeps_publishing [of "Inr [''AAPL'', ''MSFT'']" "[''AAPL'', ''MSFT'']" times0 yahoo0
      results0 "world0\<lparr>redis := redis0\<lparr>available := False\<rparr>\<rparr>"
      "[socket1]" stringify0 1000 "\<lparr>own = [(''AAPL'', Some quote0)], proto = ObjectPrototype\<rparr>"]
  by (simp add: fetch_example tick_example cache_down world0_def redis0_def)

text \<open>
  C10. \<open>getMasterTickerList\<close> always returns: a database error gives the empty set, and
  the tick that gets it changes nothing and ends without an exception.
\<close>

theorem master_list_failure_is_empty:
  "(\<exists>tickers. getMasterTickerList findMany = Inr tickers)
   \<and> ((\<exists>e. findMany = Inl e)
        \<longrightarrow> getMasterTickerList findMany = Inr []
          \<and> runPeriodicFetch findMany times_1000 yahoo_quote json_stringify now w = (w, Inr ()))"
  by (cases findMany) (simp_all add: getMasterTickerList_def try_catch_def runPeriodicFetch_def)

theorem master_list_failure_is_empty_witness:
  "getMasterTickerList (Inl (Error ''Can't reach database server'')) = Inr []
   \<and> runPeriodicFetch (Inl (Error ''Can't reach database server'')) times0 yahoo0 stringify0 1000 world0
       = (world0, Inr ())"
  using master_list_failure_is_empty [of "Inl (Error ''Can't reach database server'')" times0 yahoo0
      stringify0 1000 world0]
  by simp

section \<open>The search handler and the cache\<close>

lemma fst_getCachedStockData: "fst (getCachedStockData json_parse r now ticker) = r"
  by (simp add: getCachedStockData_def redis_get_def)

lemma getCachedStockData_store:
  "getCachedStockData json_parse r now ticker = (r', res) \<Longrightarrow> r' = r"
  using fst_getCachedStockData[of json_parse r now ticker] by simp

text \<open>
  C9. A search request leaves the cache as it found it, whatever it answers. On a cache
  miss for which the adapter has a quote, the answer is that quote, with status 200.
\<close>

theorem search_leaves_cache:
  "fst (searchStock unicode_upper json_parse times_1000 yahoo_quote r now param) = r
   \<and> (map_option (toUpperCase unicode_upper) param = Some ticker \<and> ticker \<noteq> [] \<and> length ticker \<le> 20
        \<and> snd (getCachedStockData json_parse r now ticker) = Inr cached \<and> \<not> json_truthy cached
        \<and> fetchStockData times_1000 yahoo_quote [ticker] = Inr results
        \<and> obj_get results ticker = Own (Some q)
      \<longrightarrow> searchStock unicode_upper json_parse times_1000 yahoo_quote r now param
            = (r, Inr (Response 200 (FreshStock ticker q))))"
proof -
  have frame: "fst (searchStock unicode_upper json_parse times_1000 yahoo_quote r now param) = r"
    by (auto simp: searchStock_def split: option.splits prod.splits
        dest: getCachedStockData_store)
  have miss: "searchStock unicode_upper json_parse times_1000 yahoo_quote r now param
            = (r, Inr (Response 200 (FreshStock ticker q)))"
    if p: "map_option (toUpperCase unicode_upper) param = Some ticker" "ticker \<noteq> []"
        "length ticker \<le> 20"
      and m: "snd (getCachedStockData json_parse r now ticker) = Inr cached"
        "\<not> json_truthy cached"
      and f: "fetchStockData times_1000 yahoo_quote [ticker] = Inr results"
        "obj_get results ticker = Own (Some q)"
  proof -
    obtain r' where g: "getCachedStockData json_parse r now ticker = (r', Inr cached)"
      using m(1) by (cases "getCachedStockData json_parse r now ticker") simp
    with fst_getCachedStockData[of json_parse r now ticker] have "r' = r" by simp
    with g p(2,3) m(2) f show ?thesis
      unfolding searchStock_def p(1) by (simp add: try_catch_def)
  qed
  from frame miss show ?thesis by blast
qed

theorem search_leaves_cache_witness:
  "searchStock upper0 parse0 times0 yahoo0 redis0 1000 (Some ''aapl'')
     = (redis0, Inr (Response 200 (FreshStock ''AAPL'' quote0)))"
  using search_leaves_cache [of upper0 parse0 times0 yahoo0 redis0 1000 "Some ''aapl''" "''AAPL''"
      JsonNull "\<lparr>own = [(''AAPL'', Some quote0)], proto = ObjectPrototype\<rparr>" quote0]
  by (simp add: toUpperCase_def is_ascii_def getCachedStockData_def redis_get_def redis0_def
      try_catch_def fetchStockData_def try_block_def yahoo0_def quotesArray_def process_quote_def
      raw_aapl_def quote0_def timestampObj_def times0_def mark_missing_def hasOwnProperty_def
      obj_set_def empty_object_def obj_get_def)

lemma map_of_property_order:
  assumes "distinct (map fst kvs)"
  shows "map_of (property_order kvs) = map_of kvs"
proof -
  from assms have "distinct (map fst (property_order kvs))"
    by (rule distinct_property_order)
  with assms show ?thesis
    by (simp add: map_of_inject_set set_property_order)
qed

lemma entry_after_put:
  assumes "available r" and "distinct (map fst (own stockData))"
    and "obj_get stockData S = Own (Some q)"
  shows "entries (fst (cacheStockUpdates json_stringify r t0 stockData)) (''stock:'' @ S)
           = Some (json_stringify q, t0 + CACHE_EXPIRY_SECONDS)"
proof -
  have a: "fst (cacheStockUpdates json_stringify r t0 stockData)
      = fold (\<lambda>cmd r'. redis_set r' t0 cmd) (pipeline_loop json_stringify (object_entries stockData)) r"
    using assms(1) by (simp add: cacheStockUpdates_unfold pipeline_of_def)
  from assms(2) have d: "distinct (map fst (object_entries stockData))"
    unfolding object_entries_def by (rule distinct_property_order)
  have b: "entries (fold (\<lambda>cmd r'. redis_set r' t0 cmd)
                      (pipeline_loop json_stringify (object_entries stockData)) r)
             (''stock:'' @ S)
      = (case map_of (object_entries stockData) S of
           Some (Some q) \<Rightarrow> Some (json_stringify q, t0 + CACHE_EXPIRY_SECONDS)
         | _ \<Rightarrow> entries r (''stock:'' @ S))"
    by (rule entries_pipeline_stock[OF d refl])
  from assms(3) have "map_of (own stockData) S = Some (Some q)"
    by (simp add: obj_get_def split: option.splits)
  with assms(2) have c: "map_of (object_entries stockData) S = Some (Some q)"
    by (simp add: object_entries_def map_of_property_order)
  show ?thesis unfolding a b c by simp
qed

lemma getCachedStockData_entry:
  assumes "entries r (''stock:'' @ S) = Some (str, expiry)" and "str \<noteq> []"
    and "json_parse str = Inr parsed"
  shows "getCachedStockData json_parse r now S
           = (r, if available r \<and> now < expiry then Inr parsed else Inr JsonNull)"
  using assms by (simp add: getCachedStockData_def redis_get_def try_catch_def)

text \<open>
  C7, as the code has it. After a put of a quote for \<open>S\<close> that the store accepted at
  time \<open>t0\<close>, a read of \<open>S\<close> at time \<open>now\<close> is a hit, carrying the parsed text of
  that quote, when the store answers the read and \<open>now < t0 + 300\<close>; it is a miss when
  \<open>now \<ge> t0 + 300\<close>, and also when the store does not answer. Hit or miss, the read
  returns normally.
\<close>

theorem cache_read_after_put:
  assumes "available r" and "distinct (map fst (own stockData))"
    and "obj_get stockData S = Own (Some q)"
    and "json_stringify q \<noteq> []" and "json_parse (json_stringify q) = Inr parsed"
    and "r1 = (fst (cacheStockUpdates json_stringify r t0 stockData))\<lparr>available := up\<rparr>"
  shows "getCachedStockData json_parse r1 now S
           = (r1, if up \<and> now < t0 + 300 then Inr parsed else Inr JsonNull)"
proof -
  have e: "entries r1 (''stock:'' @ S) = Some (json_stringify q, t0 + CACHE_EXPIRY_SECONDS)"
    unfolding assms(6) using entry_after_put[OF assms(1,2,3), of json_stringify t0] by simp
  have "getCachedStockData json_parse r1 now S
          = (r1, if available r1 \<and> now < t0 + CACHE_EXPIRY_SECONDS then Inr parsed else Inr JsonNull)"
    using e assms(4,5)
    by (rule getCachedStockData_entry[where str = "json_stringify q"])
  then show ?thesis
    by (simp add: assms(6) CACHE_EXPIRY_SECONDS_def)
qed

lemma put_example:
  "cacheStockUpdates stringify0 redis0 1000 \<lparr>own = [(''AAPL'', Some quote0)], proto = ObjectPrototype\<rparr>
     = (\<lparr>entries = [''stock:AAPL'' \<mapsto> (''quote:AAPL'', 1300)], available = True\<rparr>, Inr ())"
  by (simp add: cacheStockUpdates_def pipeline_of_def object_keys_def object_entries_def
      order_example redis_exec_def redis_set_def try_catch_def CACHE_EXPIRY_SECONDS_def redis0_def
      stringify0_def quote0_def Let_def)

theorem cache_read_after_put_witness:
  "getCachedStockData parse0
       ((fst (cacheStockUpdates stringify0 redis0 1000
                \<lparr>own = [(''AAPL'', Some quote0)], proto = ObjectPrototype\<rparr>))\<lparr>available := True\<rparr>)
       1299 ''AAPL''
     = (\<lparr>entries = [''stock:AAPL'' \<mapsto> (''quote:AAPL'', 1300)], available = True\<rparr>,
        Inr (JsonObj [(''text'', JsonStr ''quote:AAPL'')]))
   \<and> getCachedStockData parse0
       ((fst (cacheStockUpdates stringify0 redis0 1000
                \<lparr>own = [(''AAPL'', Some quote0)], proto = ObjectPrototype\<rparr>))\<lparr>available := True\<rparr>)
       1300 ''AAPL''
     = (\<lparr>entries = [''stock:AAPL'' \<mapsto> (''quote:AAPL'', 1300)], available = True\<rparr>, Inr JsonNull)"
proof -
  have h: "available redis0"
    "distinct (map fst (own \<lparr>own = [(''AAPL'', Some quote0)], proto = ObjectPrototype\<rparr>))"
    "obj_get \<lparr>own = [(''AAPL'', Some quote0)], proto = ObjectPrototype\<rparr> ''AAPL'' = Own (Some quote0)"
    "stringify0 quote0 \<noteq> []"
    "parse0 (stringify0 quote0) = Inr (JsonObj [(''text'', JsonStr ''quote:AAPL'')])"
    by (simp_all add: redis0_def obj_get_def stringify0_def parse0_def quote0_def)
  note put = cache_read_after_put [where r = redis0
      and stockData = "\<lparr>own = [(''AAPL'', Some quote0)], proto = ObjectPrototype\<rparr>"
      and S = "''AAPL''" and q = quote0 and json_stringify = stringify0 and json_parse = parse0
      and parsed = "JsonObj [(''text'', JsonStr ''quote:AAPL'')]" and ?t0.0 = 1000 and up = True,
      OF h refl]
  from put [of 1299] put [of 1300]
  show ?thesis
    by (simp add: put_example)
qed

text \<open>
  C7 as stated fails: ten seconds after a put that the store accepted, a read that the
  store does not answer is a miss.
\<close>

theorem cache_read_counterexample:
  "snd (getCachedStockData parse0
          ((fst (cacheStockUpdates stringify0 redis0 1000
                   \<lparr>own = [(''AAPL'', Some quote0)], proto = ObjectPrototype\<rparr>))\<lparr>available := False\<rparr>)
          1010 ''AAPL'') = Inr JsonNull
   \<and> entries (fst (cacheStockUpdates stringify0 redis0 1000
                     \<lparr>own = [(''AAPL'', Some quote0)], proto = ObjectPrototype\<rparr>)) ''stock:AAPL''
       = Some (''quote:AAPL'', 1300)
   \<and> (1010 :: nat) < 1000 + CACHE_EXPIRY_SECONDS"
  by (simp add: put_example getCachedStockData_def redis_get_def try_catch_def
      CACHE_EXPIRY_SECONDS_def)

end
